theory Spec2Isabelle
  imports Main "HOL-Library.Word"
begin

section \<open>ptrack.c: the query side and the host call-outs of the change tracker\<close>

text \<open>
  A shallow embedding of \<^verbatim>\<open>ptrack.c\<close>. Machine integers keep their widths:
  \<^verbatim>\<open>Oid\<close> and \<^verbatim>\<open>BlockNumber\<close> are 32-bit unsigned, \<^verbatim>\<open>XLogRecPtr\<close> is 64-bit
  unsigned. Strings are C strings without the terminating NUL. The structures of
  \<^verbatim>\<open>ptrack.h\<close> have the fields the file reads and writes; \<^verbatim>\<open>relsize\<close> and \<^verbatim>\<open>blocknum\<close>
  are the 32-bit unsigned numbers the file prints with \<^verbatim>\<open>%u\<close> and compares with each
  other, \<^verbatim>\<open>segno\<close> is an \<^verbatim>\<open>int\<close>.
\<close>

subsection \<open>Types and constants of the host headers\<close>

type_synonym Oid = "32 word"

type_synonym BlockNumber = "32 word"

type_synonym XLogRecPtr = "64 word"

definition InvalidOid :: Oid where
  "InvalidOid = 0"

definition GLOBALTABLESPACE_OID :: Oid where
  "GLOBALTABLESPACE_OID = 1664"

definition DEFAULTTABLESPACE_OID :: Oid where
  "DEFAULTTABLESPACE_OID = 1663"

definition InvalidXLogRecPtr :: XLogRecPtr where
  "InvalidXLogRecPtr = 0"

definition OIDCHARS :: nat where
  "OIDCHARS = 10"

datatype ForkNumber = MAIN_FORKNUM | FSM_FORKNUM | VISIBILITYMAP_FORKNUM | INIT_FORKNUM

record RelFileNode =
  spcNode :: Oid
  dbNode :: Oid
  relNode :: Oid

record RelFileNodeBackend =
  node :: RelFileNode
  backend :: int

record PtBlockId =
  relnode :: RelFileNode
  forknum :: ForkNumber
  blocknum :: BlockNumber

record PtrackFileList_i =
  pfl_relnode :: RelFileNode
  pfl_forknum :: ForkNumber
  pfl_segno :: int
  pfl_path :: string

record PtScanCtx =
  lsn :: XLogRecPtr
  bid :: PtBlockId
  relsize :: "32 word"
  relpath :: string
  filelist :: "PtrackFileList_i list"

record PtrackMapHdr =
  init_lsn :: XLogRecPtr
  entries :: "nat \<Rightarrow> XLogRecPtr"

datatype logmsg = LOG string | WARNING string

datatype error = ERROR string

subsection \<open>The C library functions the file calls\<close>

definition digit_chars :: string where
  "digit_chars = ''0123456789''"

definition strspn :: "string \<Rightarrow> string \<Rightarrow> nat" where
  "strspn s accept = length (takeWhile (\<lambda>c. c \<in> set accept) s)"

definition strlen :: "string \<Rightarrow> nat" where
  "strlen s = length s"

text \<open>\<^verbatim>\<open>strstr(s, p) == s\<close>: the string begins with \<open>p\<close>.\<close>

definition starts_with :: "string \<Rightarrow> string \<Rightarrow> bool" where
  "starts_with s p = (take (length p) s = p)"

text \<open>\<^verbatim>\<open>strstr\<close>: the suffix of the haystack from the first occurrence of the needle on,
  \<open>None\<close> for the NULL pointer.\<close>

fun strstr :: "string \<Rightarrow> string \<Rightarrow> string option" where
  "strstr [] p = (if p = [] then Some [] else None)"
| "strstr (c # s) p = (if starts_with (c # s) p then Some (c # s) else strstr s p)"

definition isspace :: "char \<Rightarrow> bool" where
  "isspace c = (c \<in> set [CHR '' '', CHR 0x09, CHR 0x0A, CHR 0x0B, CHR 0x0C, CHR 0x0D])"

definition digits_value :: "string \<Rightarrow> nat" where
  "digits_value ds = foldl (\<lambda>a c. 10 * a + (of_char c - 48)) 0 ds"

text \<open>The sign and the digit run that \<^verbatim>\<open>strtoul\<close> and \<^verbatim>\<open>strtol\<close> read in base 10:
  leading white space, an optional sign, then digits; anything after is ignored.\<close>

definition scan_number :: "string \<Rightarrow> bool \<times> nat" where
  "scan_number s =
     (let s1 = dropWhile isspace s;
          neg = (s1 \<noteq> [] \<and> hd s1 = CHR ''-'');
          s2 = (if s1 \<noteq> [] \<and> (hd s1 = CHR ''-'' \<or> hd s1 = CHR ''+'') then tl s1 else s1)
      in (neg, digits_value (takeWhile (\<lambda>c. c \<in> set digit_chars) s2)))"

text \<open>\<^verbatim>\<open>atooid(x)\<close> is \<^verbatim>\<open>((Oid) strtoul((x), NULL, 10))\<close>: the 64-bit result saturates at
  \<^verbatim>\<open>ULONG_MAX\<close>, a minus sign negates it modulo \<open>2^64\<close>, the cast keeps the low 32 bits.\<close>

definition strtoul :: "string \<Rightarrow> 64 word" where
  "strtoul s =
     (case scan_number s of (neg, v) \<Rightarrow>
        if v \<ge> 2 ^ 64 then - 1
        else if neg then - (word_of_nat v) else word_of_nat v)"

definition atooid :: "string \<Rightarrow> Oid" where
  "atooid s = ucast (strtoul s)"

text \<open>\<^verbatim>\<open>atoi(x)\<close> is \<^verbatim>\<open>(int) strtol(x, NULL, 10)\<close>: the 64-bit result saturates at
  \<^verbatim>\<open>LONG_MAX\<close> and \<^verbatim>\<open>LONG_MIN\<close>, the cast keeps the low 32 bits, read as signed.\<close>

definition strtol :: "string \<Rightarrow> int" where
  "strtol s =
     (case scan_number s of (neg, v) \<Rightarrow>
        if neg then max (- (2 ^ 63)) (- int v) else min (2 ^ 63 - 1) (int v))"

definition atoi :: "string \<Rightarrow> int" where
  "atoi s = sint (word_of_int (strtol s) :: 32 word)"

text \<open>The \<^verbatim>\<open>%d\<close> and \<^verbatim>\<open>%u\<close> conversions of \<^verbatim>\<open>psprintf\<close>.\<close>

fun fmt_nat :: "nat \<Rightarrow> string" where
  "fmt_nat n =
     (if n < 10 then [digit_chars ! n]
      else fmt_nat (n div 10) @ [digit_chars ! (n mod 10)])"

definition fmt_int :: "int \<Rightarrow> string" where
  "fmt_int i = (if i < 0 then CHR ''-'' # fmt_nat (nat (- i)) else fmt_nat (nat i))"

declare fmt_nat.simps [simp del]

subsection \<open>The host: build constants, helper functions and the visible world\<close>

text \<open>
  What \<^verbatim>\<open>ptrack.c\<close> lstat()s while walking the data directory. A directory or a symbolic
  link carries the entries \<^verbatim>\<open>ReadDirExtended\<close> returns for it, in the order it returns
  them; a directory that cannot be opened, or a dangling link, has none (the host logs
  that itself and returns NULL, which ends the walk's loop at once).
\<close>

datatype fsnode =
    NoStat
  | Regular
  | Directory "(string \<times> fsnode) list"
  | Symlink "(string \<times> fsnode) list"
  | Special

text \<open>
  The constants, macros and functions of the host and of \<^verbatim>\<open>ptrack.h\<close> that the file uses
  and does not define are parameters: the segment and block sizes, the version directory
  name, the two file-name recognisers, \<^verbatim>\<open>GetRelationPath\<close> (called with
  \<^verbatim>\<open>InvalidBackendId\<close>), the slot hash \<^verbatim>\<open>BID_HASH_FUNC\<close>, and the world: the contents of
  the data directory, \<^verbatim>\<open>st_size\<close> as \<^verbatim>\<open>stat\<close> reports it for a full path (\<open>None\<close> when
  \<^verbatim>\<open>stat\<close> fails), and the shared map (\<open>None\<close> for the NULL pointer). The map is the
  array of slots as one query reads it: each slot is read once per lookup, atomically,
  and writers that run beside the query are not part of the model. Paths are taken to
  fit their buffers (\<^verbatim>\<open>MAXPGPATH\<close>).
\<close>

record host =
  DataDir :: string
  RELSEG_SIZE :: int
  BLCKSZ :: int
  TABLESPACE_VERSION_DIRECTORY :: string
  looks_like_temp_rel_name :: "string \<Rightarrow> bool"
  parse_filename_for_nontemp_relation :: "string \<Rightarrow> (nat \<times> ForkNumber) option"
  GetRelationPath :: "Oid \<Rightarrow> Oid \<Rightarrow> Oid \<Rightarrow> ForkNumber \<Rightarrow> string"
  BID_HASH_FUNC :: "PtBlockId \<Rightarrow> nat"
  datadir :: "(string \<times> fsnode) list"
  stat_size :: "string \<Rightarrow> int option"
  ptrack_map :: "PtrackMapHdr option"

text \<open>\<^verbatim>\<open>AllocateDir\<close> on a child of the data directory, followed by reading it.\<close>

definition AllocateDir :: "(string \<times> fsnode) list \<Rightarrow> string \<Rightarrow> (string \<times> fsnode) list" where
  "AllocateDir des name =
     (case map_of des name of
        Some (Directory es) \<Rightarrow> es
      | Some (Symlink es) \<Rightarrow> es
      | _ \<Rightarrow> [])"

subsection \<open>\<^verbatim>\<open>ptrack_gather_filelist\<close>\<close>

text \<open>
  The state of the walk is the file list being appended to and the server log (the
  lines at the levels LOG and WARNING; the text that \<^verbatim>\<open>%m\<close> adds for \<^verbatim>\<open>errno\<close> is left
  out). The function for one directory entry is the body of the \<^verbatim>\<open>while\<close> loop; a
  \<^verbatim>\<open>continue\<close> returns the state unchanged. \<^verbatim>\<open>de->d_name + 1\<close> is the name without its
  first character.
\<close>

type_synonym gstate = "PtrackFileList_i list \<times> logmsg list"

fun ptrack_gather_filelist ::
    "host \<Rightarrow> (string \<times> fsnode) list \<Rightarrow> string \<Rightarrow> Oid \<Rightarrow> Oid \<Rightarrow> gstate \<Rightarrow> gstate"
  and gather_entry ::
    "host \<Rightarrow> string \<Rightarrow> fsnode \<Rightarrow> string \<Rightarrow> Oid \<Rightarrow> Oid \<Rightarrow> gstate \<Rightarrow> gstate"
where
  "ptrack_gather_filelist h [] path spcOid dbOid st = st"
| "ptrack_gather_filelist h ((d_name, nd) # des) path spcOid dbOid st =
     ptrack_gather_filelist h des path spcOid dbOid
       (gather_entry h d_name nd path spcOid dbOid st)"
| "gather_entry h d_name nd path spcOid dbOid st =
     (if d_name = ''.'' \<or> d_name = ''..'' \<or> looks_like_temp_rel_name h d_name then st
      else
        let subpath = path @ ''/'' @ d_name in
        case nd of
          NoStat \<Rightarrow>
            (fst st, snd st @ [LOG (''ptrack: could not stat file \"'' @ subpath @ ''\"'')])
        | Regular \<Rightarrow>
            if dbOid \<noteq> InvalidOid \<or> spcOid = GLOBALTABLESPACE_OID then
              (case parse_filename_for_nontemp_relation h d_name of
                 None \<Rightarrow> st
               | Some (oidchars, fork) \<Rightarrow>
                   let segno =
                         (if fork = MAIN_FORKNUM then
                            (case strstr d_name ''.'' of
                               Some segpath \<Rightarrow> atoi (tl segpath)
                             | None \<Rightarrow> 0)
                          else 0);
                       rel = atooid (take oidchars d_name);
                       spc = (if spcOid = InvalidOid then DEFAULTTABLESPACE_OID else spcOid);
                       pfl = \<lparr> pfl_relnode = \<lparr> spcNode = spc, dbNode = dbOid, relNode = rel \<rparr>,
                               pfl_forknum = fork,
                               pfl_segno = segno,
                               pfl_path = GetRelationPath h dbOid spc rel fork \<rparr>
                   in (fst st @ [pfl], snd st))
            else st
        | Directory es \<Rightarrow>
            if strspn (tl d_name) digit_chars = strlen (tl d_name) \<and> dbOid = InvalidOid then
              ptrack_gather_filelist h es subpath spcOid (atooid d_name) st
            else if spcOid \<noteq> InvalidOid \<and> d_name = TABLESPACE_VERSION_DIRECTORY h then
              ptrack_gather_filelist h es subpath spcOid InvalidOid st
            else st
        | Symlink es \<Rightarrow>
            if strspn (tl d_name) digit_chars = strlen (tl d_name) then
              ptrack_gather_filelist h es subpath (atooid d_name) InvalidOid st
            else st
        | Special \<Rightarrow> st)"

declare gather_entry.simps [simp del]

subsection \<open>\<^verbatim>\<open>ptrack_filelist_getnext\<close>\<close>

text \<open>C division of signed integers truncates towards zero.\<close>

definition c_div :: "int \<Rightarrow> int \<Rightarrow> int" where
  "c_div a b = sgn a * sgn b * (\<bar>a\<bar> div \<bar>b\<bar>)"

text \<open>
  The function returns its \<^verbatim>\<open>int\<close> result, the updated scan context and the log. The
  arithmetic of \<^verbatim>\<open>relsize\<close> and \<^verbatim>\<open>blocknum\<close> is done in \<^verbatim>\<open>int\<close> and \<^verbatim>\<open>off_t\<close> and stored
  into 32-bit unsigned fields, which keeps the low 32 bits; with the wrapping \<^verbatim>\<open>int\<close>
  product of the host's build (\<^verbatim>\<open>-fwrapv\<close>) that is the exact sum modulo \<open>2^32\<close>.
\<close>

function ptrack_filelist_getnext ::
    "host \<Rightarrow> PtScanCtx \<Rightarrow> logmsg list \<Rightarrow> int \<times> PtScanCtx \<times> logmsg list"
where
  "ptrack_filelist_getnext h ctx log =
     (if length (filelist ctx) = 0 then (- 1, ctx, log)
      else
        let pfl = hd (filelist ctx);
            ctx1 = ctx \<lparr> filelist := tl (filelist ctx) \<rparr>;
            fullpath =
              (if pfl_segno pfl > 0
               then DataDir h @ ''/'' @ pfl_path pfl @ ''.'' @ fmt_int (pfl_segno pfl)
               else DataDir h @ ''/'' @ pfl_path pfl);
            ctx2 = ctx1 \<lparr> relpath :=
              (if pfl_segno pfl > 0
               then pfl_path pfl @ ''.'' @ fmt_int (pfl_segno pfl)
               else pfl_path pfl) \<rparr>;
            ctx3 = ctx2 \<lparr> bid :=
              \<lparr> relnode = \<lparr> spcNode = spcNode (pfl_relnode pfl),
                            dbNode = dbNode (pfl_relnode pfl),
                            relNode = relNode (pfl_relnode pfl) \<rparr>,
                forknum = pfl_forknum pfl,
                blocknum = 0 \<rparr> \<rparr>
        in case stat_size h fullpath of
             None \<Rightarrow>
               ptrack_filelist_getnext h ctx3
                 (log @ [WARNING (''ptrack: cannot stat file '' @ fullpath)])
           | Some st_size \<Rightarrow>
               (0,
                (if pfl_segno pfl > 0 then
                   ctx3 \<lparr> relsize :=
                            word_of_int (pfl_segno pfl * RELSEG_SIZE h + c_div st_size (BLCKSZ h)),
                          bid := (bid ctx3) \<lparr> blocknum :=
                            word_of_int (pfl_segno pfl * RELSEG_SIZE h) \<rparr> \<rparr>
                 else ctx3 \<lparr> relsize := word_of_int (c_div st_size (BLCKSZ h)) \<rparr>),
                log))"
  by pat_completeness auto

termination
  by (relation "measure (\<lambda>(h, ctx, log). length (filelist ctx))") auto

declare ptrack_filelist_getnext.simps [simp del]

subsection \<open>The page map of one file\<close>

text \<open>
  Modelled from the spec: \<^verbatim>\<open>datapagemap.c\<close> is not among the sources. The spec gives the
  bitmap as one bit per page offset within the file, starting empty and grown on demand
  only as bits are set, and leaves the packing of bits into bytes to the implementation.
  The model keeps the bits themselves: \<open>None\<close> is the NULL \<^verbatim>\<open>bitmap\<close> pointer of a map
  no bit was ever added to, and the list is as long as the highest offset added needs.
\<close>

record datapagemap_t =
  bitmap :: "bool list option"

text \<open>
  Modelled from the spec: \<^verbatim>\<open>datapagemap_add\<close> of \<^verbatim>\<open>datapagemap.c\<close>, which is missing. It
  sets the bit of the page offset and grows the bitmap first when the offset lies beyond
  its end; the bits set before stay set.
\<close>

definition datapagemap_add :: "datapagemap_t \<Rightarrow> BlockNumber \<Rightarrow> datapagemap_t" where
  "datapagemap_add pm blkno =
     (let bits = (case bitmap pm of None \<Rightarrow> [] | Some b \<Rightarrow> b);
          grown = bits @ replicate (Suc (unat blkno) - length bits) False
      in pm \<lparr> bitmap := Some (grown [unat blkno := True]) \<rparr>)"

text \<open>
  Modelled from the spec: reading one bit of a bitmap (the packing of \<^verbatim>\<open>datapagemap.c\<close>
  is missing); an offset beyond the end of the bitmap is not set.
\<close>

definition bit_is_set :: "bool list \<Rightarrow> nat \<Rightarrow> bool" where
  "bit_is_set bits i = (i < length bits \<and> bits ! i)"

subsection \<open>\<^verbatim>\<open>ptrack_get_pagemapset\<close>\<close>

text \<open>
  One call of the set-returning function ends in \<^verbatim>\<open>SRF_RETURN_DONE\<close> or in
  \<^verbatim>\<open>SRF_RETURN_NEXT\<close> with a (path, pagemap) row. The \<^verbatim>\<open>while (true)\<close> loop is a
  partial function: \<open>None\<close> is the loop that never leaves. Its state is the scan context,
  the page map of the call and the log. The first part of the body either leaves the
  function or falls through to the slot lookup, with the context \<^verbatim>\<open>getnext\<close> may have
  moved to the next file.
\<close>

datatype srf_result = SRF_RETURN_DONE | SRF_RETURN_NEXT string "bool list"

partial_function (option) pagemapset_loop ::
    "host \<Rightarrow> PtrackMapHdr \<Rightarrow> PtScanCtx \<Rightarrow> datapagemap_t \<Rightarrow> logmsg list
      \<Rightarrow> (srf_result \<times> PtScanCtx \<times> logmsg list) option"
where
  "pagemapset_loop h pmap ctx pagemap log =
     (case
        (if blocknum (bid ctx) > relsize ctx then
           (case bitmap pagemap of
              Some bits \<Rightarrow> Inl (SRF_RETURN_NEXT (relpath ctx) bits, ctx, log)
            | None \<Rightarrow>
                (case ptrack_filelist_getnext h ctx log of
                   (rc, ctx', log') \<Rightarrow>
                     if rc < 0 then Inl (SRF_RETURN_DONE, ctx', log') else Inr (ctx', log')))
         else Inr (ctx, log))
      of
        Inl r \<Rightarrow> Some r
      | Inr (ctx1, log1) \<Rightarrow>
          (let update_lsn = entries pmap (BID_HASH_FUNC h (bid ctx1));
               pagemap1 =
                 (if update_lsn \<ge> lsn ctx1
                  then datapagemap_add pagemap
                         (blocknum (bid ctx1) mod word_of_int (RELSEG_SIZE h))
                  else pagemap);
               ctx2 = ctx1 \<lparr> bid := (bid ctx1) \<lparr> blocknum := blocknum (bid ctx1) + 1 \<rparr> \<rparr>
           in pagemapset_loop h pmap ctx2 pagemap1 log1))"

declare pagemapset_loop.simps [code]

text \<open>The first call builds the scan context: the three walks, in the source's order.\<close>

definition first_call_init :: "host \<Rightarrow> XLogRecPtr \<Rightarrow> PtScanCtx \<times> logmsg list" where
  "first_call_init h arg_lsn =
     (let st0 = ([], []);
          st1 = ptrack_gather_filelist h (AllocateDir (datadir h) ''global'')
                  (DataDir h @ ''/'' @ ''global'') GLOBALTABLESPACE_OID InvalidOid st0;
          st2 = ptrack_gather_filelist h (AllocateDir (datadir h) ''base'')
                  (DataDir h @ ''/'' @ ''base'') InvalidOid InvalidOid st1;
          st3 = ptrack_gather_filelist h (AllocateDir (datadir h) ''pg_tblspc'')
                  (DataDir h @ ''/'' @ ''pg_tblspc'') InvalidOid InvalidOid st2
      in (\<lparr> lsn = arg_lsn,
            bid = \<lparr> relnode = \<lparr> spcNode = 0, dbNode = 0, relNode = 0 \<rparr>,
                    forknum = MAIN_FORKNUM, blocknum = 0 \<rparr>,
            relsize = 0,
            relpath = [],
            filelist = fst st3 \<rparr>,
          snd st3))"

text \<open>
  One call. \<open>user_fctx\<close> is \<open>None\<close> on the first call (\<^verbatim>\<open>SRF_IS_FIRSTCALL\<close>) and the
  context the previous call left otherwise. \<open>Inl\<close> is the \<^verbatim>\<open>elog(ERROR, ...)\<close> that
  leaves the function.
\<close>

definition ptrack_get_pagemapset ::
    "host \<Rightarrow> XLogRecPtr \<Rightarrow> PtScanCtx option
      \<Rightarrow> (error + srf_result \<times> PtScanCtx \<times> logmsg list) option"
where
  "ptrack_get_pagemapset h arg_lsn user_fctx =
     (case ptrack_map h of
        None \<Rightarrow> Some (Inl (ERROR ''ptrack is disabled''))
      | Some pmap \<Rightarrow>
          (case (case user_fctx of
                   None \<Rightarrow> first_call_init h arg_lsn
                 | Some c \<Rightarrow> (c, []))
           of (ctx, log) \<Rightarrow>
             (case ptrack_filelist_getnext h ctx log of
                (rc, ctx', log') \<Rightarrow>
                  if rc < 0 then Some (Inr (SRF_RETURN_DONE, ctx', log'))
                  else map_option Inr
                         (pagemapset_loop h pmap ctx' \<lparr> bitmap = None \<rparr> log'))))"

text \<open>
  The caller of a set-returning function calls it until it is done, and collects the
  rows: the complete query.
\<close>

partial_function (option) fetch_all ::
    "host \<Rightarrow> XLogRecPtr \<Rightarrow> PtScanCtx option \<Rightarrow> (error + (string \<times> bool list) list) option"
where
  "fetch_all h arg_lsn user_fctx =
     (case ptrack_get_pagemapset h arg_lsn user_fctx of
        None \<Rightarrow> None
      | Some (Inl e) \<Rightarrow> Some (Inl e)
      | Some (Inr (SRF_RETURN_DONE, ctx, log)) \<Rightarrow> Some (Inr [])
      | Some (Inr (SRF_RETURN_NEXT p bits, ctx, log)) \<Rightarrow>
          Option.bind (fetch_all h arg_lsn (Some ctx))
            (\<lambda>r. case r of Inl e \<Rightarrow> Some (Inl e) | Inr rows \<Rightarrow> Some (Inr ((p, bits) # rows))))"

declare fetch_all.simps [code]

definition ptrack_query :: "host \<Rightarrow> XLogRecPtr \<Rightarrow> (error + (string \<times> bool list) list) option" where
  "ptrack_query h arg_lsn = fetch_all h arg_lsn None"

subsection \<open>\<^verbatim>\<open>ptrack_init_lsn\<close>\<close>

definition ptrack_init_lsn :: "host \<Rightarrow> (error + XLogRecPtr \<times> logmsg list)" where
  "ptrack_init_lsn h =
     (case ptrack_map h of
        Some pmap \<Rightarrow> Inr (init_lsn pmap, [])
      | None \<Rightarrow> Inr (InvalidXLogRecPtr, [WARNING ''ptrack is disabled'']))"

subsection \<open>The hooks\<close>

text \<open>
  What a hook does is the sequence of calls it makes into the engine
  (\<^verbatim>\<open>ptrack_mark_block\<close>, \<^verbatim>\<open>ptrack_walkdir\<close>, \<^verbatim>\<open>ptrackCheckpoint\<close>) and into the hook that
  was installed before it. A previous hook is given by whether its pointer is non-NULL.
  The build is the community one (\<^verbatim>\<open>PGPRO_EE\<close> undefined).
\<close>

datatype call =
    call_ptrack_mark_block RelFileNodeBackend ForkNumber BlockNumber
  | call_ptrack_walkdir string Oid Oid
  | call_ptrackCheckpoint
  | call_prev_copydir_hook string
  | call_prev_mdwrite_hook RelFileNodeBackend ForkNumber BlockNumber
  | call_prev_mdextend_hook RelFileNodeBackend ForkNumber BlockNumber
  | call_prev_ProcessSyncRequests_hook

datatype crash = NULL_POINTER | BUFFER_OVERRUN

text \<open>
  \<^verbatim>\<open>strspn\<close>, \<^verbatim>\<open>strncpy\<close> into \<^verbatim>\<open>oidbuf[OIDCHARS + 1]\<close> and the terminating NUL: the
  digit run at the start of the string, and a write past the buffer when the run is
  longer than \<^verbatim>\<open>OIDCHARS\<close>.
\<close>

definition copy_oid :: "string \<Rightarrow> crash + string" where
  "copy_oid s =
     (let oidchars = strspn s digit_chars
      in if oidchars > OIDCHARS then Inl BUFFER_OVERRUN else Inr (take oidchars s))"

definition ptrack_copydir_hook :: "host \<Rightarrow> bool \<Rightarrow> string \<Rightarrow> crash + call list" where
  "ptrack_copydir_hook h prev_copydir_hook path =
     (case
        (if starts_with path ''global/'' then Inr (GLOBALTABLESPACE_OID, InvalidOid)
         else if starts_with path ''base/'' then
           (case copy_oid (drop 5 path) of
              Inl c \<Rightarrow> Inl c
            | Inr oidbuf \<Rightarrow> Inr (DEFAULTTABLESPACE_OID, atooid oidbuf))
         else if starts_with path ''pg_tblspc/'' then
           (case copy_oid (drop 10 path) of
              Inl c \<Rightarrow> Inl c
            | Inr oidbuf \<Rightarrow>
                (case strstr path (TABLESPACE_VERSION_DIRECTORY h) of
                   None \<Rightarrow> Inl NULL_POINTER
                 | Some found \<Rightarrow>
                     if length found < strlen (TABLESPACE_VERSION_DIRECTORY h) + 1
                     then Inl BUFFER_OVERRUN
                     else
                       (case copy_oid (drop (strlen (TABLESPACE_VERSION_DIRECTORY h) + 1) found) of
                          Inl c \<Rightarrow> Inl c
                        | Inr oidbuf2 \<Rightarrow> Inr (atooid oidbuf, atooid oidbuf2))))
         else Inr (InvalidOid, InvalidOid))
      of
        Inl c \<Rightarrow> Inl c
      | Inr (spcOid, dbOid) \<Rightarrow>
          Inr (call_ptrack_walkdir path spcOid dbOid
               # (if prev_copydir_hook then [call_prev_copydir_hook path] else [])))"

definition ptrack_mdwrite_hook ::
    "bool \<Rightarrow> RelFileNodeBackend \<Rightarrow> ForkNumber \<Rightarrow> BlockNumber \<Rightarrow> call list" where
  "ptrack_mdwrite_hook prev_mdwrite_hook smgr_rnode forkno blkno =
     call_ptrack_mark_block smgr_rnode forkno blkno
     # (if prev_mdwrite_hook then [call_prev_mdwrite_hook smgr_rnode forkno blkno] else [])"

definition ptrack_mdextend_hook ::
    "bool \<Rightarrow> RelFileNodeBackend \<Rightarrow> ForkNumber \<Rightarrow> BlockNumber \<Rightarrow> call list" where
  "ptrack_mdextend_hook prev_mdextend_hook smgr_rnode forkno blkno =
     call_ptrack_mark_block smgr_rnode forkno blkno
     # (if prev_mdextend_hook then [call_prev_mdextend_hook smgr_rnode forkno blkno] else [])"

definition ptrack_ProcessSyncRequests_hook :: "bool \<Rightarrow> call list" where
  "ptrack_ProcessSyncRequests_hook prev_ProcessSyncRequests_hook =
     call_ptrackCheckpoint
     # (if prev_ProcessSyncRequests_hook then [call_prev_ProcessSyncRequests_hook] else [])"

section \<open>An example host\<close>

text \<open>
  A host in the shape of PostgreSQL 12 with the default build constants, a small data
  directory and a map of five slots. The file-name recognisers and the path builder
  follow the host's rules for the names that occur: an OID of at most \<^verbatim>\<open>OIDCHARS\<close>
  digits, an optional \<^verbatim>\<open>_fsm\<close>, \<^verbatim>\<open>_vm\<close> or \<^verbatim>\<open>_init\<close>, an optional \<^verbatim>\<open>.segno\<close>; temporary
  relations are \<^verbatim>\<open>tBBB_FFF\<close> with the same optional endings.
\<close>

definition pg_forkname_chars :: "string \<Rightarrow> (nat \<times> ForkNumber) option" where
  "pg_forkname_chars s =
     (if starts_with s ''fsm'' then Some (3, FSM_FORKNUM)
      else if starts_with s ''vm'' then Some (2, VISIBILITYMAP_FORKNUM)
      else if starts_with s ''init'' then Some (4, INIT_FORKNUM)
      else None)"

text \<open>The optional fork and segment endings, from the position after the OID digits.\<close>

definition pg_name_tail :: "string \<Rightarrow> ForkNumber option" where
  "pg_name_tail r1 =
     (case (if r1 \<noteq> [] \<and> hd r1 = CHR ''_'' then
              (case pg_forkname_chars (tl r1) of
                 None \<Rightarrow> None
               | Some (n, f) \<Rightarrow> Some (f, drop (n + 1) r1))
            else Some (MAIN_FORKNUM, r1)) of
        None \<Rightarrow> None
      | Some (fork, r2) \<Rightarrow>
          if r2 = [] then Some fork
          else if hd r2 = CHR ''.'' \<and> tl r2 \<noteq> [] \<and> strspn (tl r2) digit_chars = strlen (tl r2)
          then Some fork
          else None)"

definition pg_parse_filename :: "string \<Rightarrow> (nat \<times> ForkNumber) option" where
  "pg_parse_filename name =
     (let oidchars = strspn name digit_chars
      in if oidchars = 0 \<or> oidchars > OIDCHARS then None
         else map_option (Pair oidchars) (pg_name_tail (drop oidchars name)))"

definition pg_looks_like_temp :: "string \<Rightarrow> bool" where
  "pg_looks_like_temp name =
     (name \<noteq> [] \<and> hd name = CHR ''t'' \<and>
      (let n1 = strspn (tl name) digit_chars;
           r1 = drop n1 (tl name)
       in n1 > 0 \<and> r1 \<noteq> [] \<and> hd r1 = CHR ''_'' \<and>
          (let n2 = strspn (tl r1) digit_chars
           in n2 > 0 \<and> pg_name_tail (drop n2 (tl r1)) \<noteq> None)))"

definition pg_fork_suffix :: "ForkNumber \<Rightarrow> string" where
  "pg_fork_suffix f =
     (case f of MAIN_FORKNUM \<Rightarrow> [] | FSM_FORKNUM \<Rightarrow> ''_fsm''
      | VISIBILITYMAP_FORKNUM \<Rightarrow> ''_vm'' | INIT_FORKNUM \<Rightarrow> ''_init'')"

definition pg_GetRelationPath :: "string \<Rightarrow> Oid \<Rightarrow> Oid \<Rightarrow> Oid \<Rightarrow> ForkNumber \<Rightarrow> string" where
  "pg_GetRelationPath vdir db spc rel f =
     (if spc = GLOBALTABLESPACE_OID then ''global/'' @ fmt_nat (unat rel) @ pg_fork_suffix f
      else if spc = DEFAULTTABLESPACE_OID
      then ''base/'' @ fmt_nat (unat db) @ ''/'' @ fmt_nat (unat rel) @ pg_fork_suffix f
      else ''pg_tblspc/'' @ fmt_nat (unat spc) @ ''/'' @ vdir @ ''/'' @ fmt_nat (unat db)
           @ ''/'' @ fmt_nat (unat rel) @ pg_fork_suffix f)"

definition ex_hash :: "PtBlockId \<Rightarrow> nat" where
  "ex_hash b = (unat (relNode (relnode b)) + unat (blocknum b)) mod 5"

definition ex_map :: PtrackMapHdr where
  "ex_map = \<lparr> init_lsn = 42,
              entries = (\<lambda>i. if i = 0 then 100 else if i = 1 then 200
                              else if i = 3 then 300 else 0) \<rparr>"

definition ex_datadir :: "(string \<times> fsnode) list" where
  "ex_datadir =
     [(''global'', Directory
         [(''.'', Directory []), (''..'', Directory []),
          (''1262'', Regular), (''pg_control'', Regular)]),
      (''base'', Directory
         [(''1'', Directory
             [(''16384'', Regular), (''16385'', Regular), (''16385_fsm'', Regular),
              (''t3_16390'', Regular), (''PG_VERSION'', Regular), (''16386'', NoStat)]),
          (''pgsql_tmp'', Directory [])]),
      (''pg_tblspc'', Directory
         [(''16400'', Symlink
             [(''PG_12_201909212'', Directory
                 [(''5'', Directory [(''16500.1'', Regular)])])])])]"

definition ex_stat :: "string \<Rightarrow> int option" where
  "ex_stat p =
     (if p = ''/pgdata/global/1262'' then Some 8192
      else if p = ''/pgdata/base/1/16384'' then Some 24576
      else if p = ''/pgdata/base/1/16385'' then Some 0
      else if p = ''/pgdata/pg_tblspc/16400/PG_12_201909212/5/16500.1'' then Some 16384
      else None)"

definition ex_host :: host where
  "ex_host =
     \<lparr> DataDir = ''/pgdata'',
       RELSEG_SIZE = 131072,
       BLCKSZ = 8192,
       TABLESPACE_VERSION_DIRECTORY = ''PG_12_201909212'',
       looks_like_temp_rel_name = pg_looks_like_temp,
       parse_filename_for_nontemp_relation = pg_parse_filename,
       GetRelationPath = pg_GetRelationPath ''PG_12_201909212'',
       BID_HASH_FUNC = ex_hash,
       datadir = ex_datadir,
       stat_size = ex_stat,
       ptrack_map = Some ex_map \<rparr>"

definition ex_fsm_file :: PtrackFileList_i where
  "ex_fsm_file =
     \<lparr> pfl_relnode = \<lparr> spcNode = 1663, dbNode = 1, relNode = 16385 \<rparr>,
       pfl_forknum = FSM_FORKNUM, pfl_segno = 0, pfl_path = ''base/1/16385_fsm'' \<rparr>"

definition ex_tblspc_file :: PtrackFileList_i where
  "ex_tblspc_file =
     \<lparr> pfl_relnode = \<lparr> spcNode = 16400, dbNode = 5, relNode = 16500 \<rparr>,
       pfl_forknum = MAIN_FORKNUM, pfl_segno = 1,
       pfl_path = ''pg_tblspc/16400/PG_12_201909212/5/16500'' \<rparr>"

definition ex_ctx :: "PtrackFileList_i list \<Rightarrow> PtScanCtx" where
  "ex_ctx fl =
     \<lparr> lsn = 150,
       bid = \<lparr> relnode = \<lparr> spcNode = 0, dbNode = 0, relNode = 0 \<rparr>,
               forknum = MAIN_FORKNUM, blocknum = 0 \<rparr>,
       relsize = 0, relpath = [], filelist = fl \<rparr>"

definition ex_rel_file :: PtrackFileList_i where
  "ex_rel_file =
     \<lparr> pfl_relnode = \<lparr> spcNode = 1663, dbNode = 1, relNode = 16384 \<rparr>,
       pfl_forknum = MAIN_FORKNUM, pfl_segno = 0, pfl_path = ''base/1/16384'' \<rparr>"

definition ex_last_segment :: PtrackFileList_i where
  "ex_last_segment =
     \<lparr> pfl_relnode = \<lparr> spcNode = 1663, dbNode = 1, relNode = 16384 \<rparr>,
       pfl_forknum = MAIN_FORKNUM, pfl_segno = 32767, pfl_path = ''base/1/16384'' \<rparr>"

text \<open>The last segment of a relation of the largest size the host allows, \<open>2^32 - 1\<close>
  blocks: segment 32767 holds 131071 blocks.\<close>

definition ex_host_max :: host where
  "ex_host_max =
     ex_host \<lparr> datadir := [(''base'', Directory [(''1'', Directory [(''16384.32767'', Regular)])])],
               stat_size := (\<lambda>p. if p = ''/pgdata/base/1/16384.32767''
                                  then Some 1073733632 else None) \<rparr>"

text \<open>A relation whose first segment is full: 131072 blocks.\<close>

definition ex_host_full :: host where
  "ex_host_full =
     ex_host \<lparr> stat_size := (\<lambda>p. if p = ''/pgdata/base/1/16384''
                                  then Some 1073741824 else None) \<rparr>"

text \<open>The example host with a map in which only slot 2 was ever marked.\<close>

definition ex_host_slot2 :: host where
  "ex_host_slot2 =
     ex_host \<lparr> ptrack_map := Some \<lparr> init_lsn = 42,
                                     entries = (\<lambda>i. if i = 2 then 500 else 0) \<rparr> \<rparr>"

text \<open>A data directory with a stray directory \<^verbatim>\<open>base/x1\<close> and a stray link
  \<^verbatim>\<open>pg_tblspc/x16400\<close>.\<close>

definition ex_host_stray :: host where
  "ex_host_stray =
     ex_host \<lparr> datadir :=
       [(''base'', Directory
           [(''x1'', Directory [(''5'', Directory [(''16384'', Regular)])])]),
        (''pg_tblspc'', Directory
           [(''x16400'', Symlink [(''7'', Directory [(''16500'', Regular)])])])] \<rparr>"

definition ex_global_file :: PtrackFileList_i where
  "ex_global_file =
     \<lparr> pfl_relnode = \<lparr> spcNode = 1664, dbNode = 0, relNode = 1262 \<rparr>,
       pfl_forknum = MAIN_FORKNUM, pfl_segno = 0, pfl_path = ''global/1262'' \<rparr>"

section \<open>What one call and the complete query compute\<close>

text \<open>
  The notions the statements are written in. They are not part of the source: each
  names a value the source computes in passing. A file of the list is read at
  \<open>full_path\<close> and reported as \<open>rel_path\<close>; its scan starts at \<open>first_block\<close> and, for a
  file of \<open>st_size\<close> bytes, the value stored in \<^verbatim>\<open>relsize\<close> is \<open>last_block\<close> (before it is
  cut to 32 bits). \<open>block_id\<close> is the identity of a block of the file, and a block is
  \<open>changed\<close> when the slot its identity hashes to holds an LSN at or above the threshold.
  \<open>scan_block\<close> is what one turn of the loop does to the page map, \<open>scan_file\<close> the page
  map after the turns for the blocks from \<open>first_block\<close> to \<open>last_block\<close>, both included,
  which are the blocks the loop is proved to visit (\<open>scanned_blocks\<close>).
  \<open>file_in_range\<close> says that these block numbers are below \<open>2^32 - 1\<close> and do not wrap.
\<close>

definition full_path :: "host \<Rightarrow> PtrackFileList_i \<Rightarrow> string" where
  "full_path h pfl =
     (if pfl_segno pfl > 0
      then DataDir h @ ''/'' @ pfl_path pfl @ ''.'' @ fmt_int (pfl_segno pfl)
      else DataDir h @ ''/'' @ pfl_path pfl)"

definition rel_path :: "PtrackFileList_i \<Rightarrow> string" where
  "rel_path pfl =
     (if pfl_segno pfl > 0 then pfl_path pfl @ ''.'' @ fmt_int (pfl_segno pfl) else pfl_path pfl)"

definition first_block :: "host \<Rightarrow> PtrackFileList_i \<Rightarrow> int" where
  "first_block h pfl = (if pfl_segno pfl > 0 then pfl_segno pfl * RELSEG_SIZE h else 0)"

definition last_block :: "host \<Rightarrow> PtrackFileList_i \<Rightarrow> int \<Rightarrow> int" where
  "last_block h pfl st_size = first_block h pfl + c_div st_size (BLCKSZ h)"

definition block_id :: "PtrackFileList_i \<Rightarrow> int \<Rightarrow> PtBlockId" where
  "block_id pfl k =
     \<lparr> relnode = pfl_relnode pfl, forknum = pfl_forknum pfl, blocknum = word_of_int k \<rparr>"

definition changed :: "host \<Rightarrow> PtrackMapHdr \<Rightarrow> XLogRecPtr \<Rightarrow> PtrackFileList_i \<Rightarrow> int \<Rightarrow> bool" where
  "changed h pmap thr pfl k = (entries pmap (BID_HASH_FUNC h (block_id pfl k)) \<ge> thr)"

definition scan_block ::
    "host \<Rightarrow> PtrackMapHdr \<Rightarrow> XLogRecPtr \<Rightarrow> PtrackFileList_i \<Rightarrow> int \<Rightarrow> datapagemap_t \<Rightarrow> datapagemap_t" where
  "scan_block h pmap thr pfl k pm =
     (if changed h pmap thr pfl k
      then datapagemap_add pm (word_of_int k mod word_of_int (RELSEG_SIZE h))
      else pm)"

definition scan_file ::
    "host \<Rightarrow> PtrackMapHdr \<Rightarrow> XLogRecPtr \<Rightarrow> PtrackFileList_i \<Rightarrow> int \<Rightarrow> datapagemap_t" where
  "scan_file h pmap thr pfl st_size =
     fold (scan_block h pmap thr pfl) [first_block h pfl..last_block h pfl st_size]
       \<lparr> bitmap = None \<rparr>"

definition file_in_range :: "host \<Rightarrow> PtrackFileList_i \<Rightarrow> bool" where
  "file_in_range h pfl =
     (case stat_size h (full_path h pfl) of
        None \<Rightarrow> True
      | Some st_size \<Rightarrow>
          0 \<le> first_block h pfl \<and> first_block h pfl \<le> last_block h pfl st_size
          \<and> last_block h pfl st_size < 2 ^ 32 - 1)"

text \<open>
  \<open>next_row\<close> is the result of one call on a list of files and the list it leaves;
  \<open>expected_rows\<close> are the rows of the calls until the list is used up; \<open>advance\<close> is
  the part of a call from \<^verbatim>\<open>ptrack_filelist_getnext\<close> on, which the loop returns to when a
  file ends unchanged; \<open>start_ctx\<close> is the scan context a call works on and
  \<open>enumerated_files\<close> the list the first call builds.
\<close>

fun next_row ::
    "host \<Rightarrow> PtrackMapHdr \<Rightarrow> XLogRecPtr \<Rightarrow> PtrackFileList_i list
      \<Rightarrow> srf_result \<times> PtrackFileList_i list" where
  "next_row h pmap thr [] = (SRF_RETURN_DONE, [])"
| "next_row h pmap thr (pfl # fl) =
     (case stat_size h (full_path h pfl) of
        None \<Rightarrow> next_row h pmap thr fl
      | Some st_size \<Rightarrow>
          (case bitmap (scan_file h pmap thr pfl st_size) of
             None \<Rightarrow> next_row h pmap thr fl
           | Some bits \<Rightarrow> (SRF_RETURN_NEXT (rel_path pfl) bits, fl)))"

definition advance ::
    "host \<Rightarrow> PtrackMapHdr \<Rightarrow> PtScanCtx \<Rightarrow> logmsg list
      \<Rightarrow> (srf_result \<times> PtScanCtx \<times> logmsg list) option" where
  "advance h pmap ctx log =
     (case ptrack_filelist_getnext h ctx log of
        (rc, ctx', log') \<Rightarrow>
          if rc < 0 then Some (SRF_RETURN_DONE, ctx', log')
          else pagemapset_loop h pmap ctx' \<lparr> bitmap = None \<rparr> log')"

fun expected_rows ::
    "host \<Rightarrow> PtrackMapHdr \<Rightarrow> XLogRecPtr \<Rightarrow> PtrackFileList_i list \<Rightarrow> (string \<times> bool list) list" where
  "expected_rows h pmap thr [] = []"
| "expected_rows h pmap thr (pfl # fl) =
     (case stat_size h (full_path h pfl) of
        None \<Rightarrow> expected_rows h pmap thr fl
      | Some st_size \<Rightarrow>
          (case bitmap (scan_file h pmap thr pfl st_size) of
             None \<Rightarrow> expected_rows h pmap thr fl
           | Some bits \<Rightarrow> (rel_path pfl, bits) # expected_rows h pmap thr fl))"

definition start_ctx :: "host \<Rightarrow> XLogRecPtr \<Rightarrow> PtScanCtx option \<Rightarrow> PtScanCtx" where
  "start_ctx h arg_lsn user_fctx =
     (case user_fctx of None \<Rightarrow> fst (first_call_init h arg_lsn) | Some c \<Rightarrow> c)"

text \<open>
  \<open>pm_bit\<close> reads a bit of a page map, \<open>file_bitmap\<close> is the bitmap of a file's scan
  (\<open>None\<close> when the file cannot be stat()ed or the scan set no bit), \<open>oid_at\<close> is the OID written in decimal
  at the start of a string, and \<open>in_db_or_global\<close> that a listed file has a database
  OID or lies in the global tablespace.
\<close>

definition pm_bit :: "datapagemap_t \<Rightarrow> nat \<Rightarrow> bool" where
  "pm_bit pm i = (case bitmap pm of None \<Rightarrow> False | Some bits \<Rightarrow> bit_is_set bits i)"

definition enumerated_files :: "host \<Rightarrow> PtrackFileList_i list" where
  "enumerated_files h = filelist (fst (first_call_init h 0))"

definition oid_at :: "string \<Rightarrow> Oid" where
  "oid_at s = word_of_nat (digits_value (takeWhile (\<lambda>c. c \<in> set digit_chars) s))"

definition scanned_blocks :: "host \<Rightarrow> PtrackFileList_i \<Rightarrow> int \<Rightarrow> int list" where
  "scanned_blocks h pfl st_size = [first_block h pfl..last_block h pfl st_size]"

definition file_bitmap ::
    "host \<Rightarrow> PtrackMapHdr \<Rightarrow> XLogRecPtr \<Rightarrow> PtrackFileList_i \<Rightarrow> bool list option" where
  "file_bitmap h pmap thr pfl =
     (case stat_size h (full_path h pfl) of
        None \<Rightarrow> None
      | Some st_size \<Rightarrow> bitmap (scan_file h pmap thr pfl st_size))"

definition in_db_or_global :: "PtrackFileList_i \<Rightarrow> bool" where
  "in_db_or_global f =
     (dbNode (pfl_relnode f) \<noteq> InvalidOid \<or> spcNode (pfl_relnode f) = GLOBALTABLESPACE_OID)"

text \<open>
  \<open>stat_fails\<close> says that \<^verbatim>\<open>stat\<close> fails on the path the get-next step builds for a
  file, and \<open>stat_warnings\<close> are the warnings the step writes for a run of such files,
  one per file, in their order.
\<close>

definition stat_fails :: "host \<Rightarrow> PtrackFileList_i \<Rightarrow> bool" where
  "stat_fails h p = (stat_size h (full_path h p) = None)"

definition stat_warnings :: "host \<Rightarrow> PtrackFileList_i list \<Rightarrow> logmsg list" where
  "stat_warnings h fl = map (\<lambda>p. WARNING (''ptrack: cannot stat file '' @ full_path h p)) fl"

section \<open>Lemmas\<close>

subsection \<open>The get-next step and the loop over the blocks of a file\<close>

lemma getnext_nil:
  "filelist ctx = [] \<Longrightarrow> ptrack_filelist_getnext h ctx log = (- 1, ctx, log)"
  by (simp add: ptrack_filelist_getnext.simps)

lemma rn_eta: "\<lparr> spcNode = spcNode r, dbNode = dbNode r, relNode = relNode r \<rparr> = (r :: RelFileNode)"
  by simp

lemma getnext_nostat:
  assumes "filelist ctx = pfl # fl" "stat_size h (full_path h pfl) = None"
  shows "ptrack_filelist_getnext h ctx log =
     ptrack_filelist_getnext h
       (ctx \<lparr> filelist := fl, relpath := rel_path pfl, bid := block_id pfl 0 \<rparr>)
       (log @ [WARNING (''ptrack: cannot stat file '' @ full_path h pfl)])"
  using assms
  by (subst ptrack_filelist_getnext.simps)
     (simp add: full_path_def rel_path_def block_id_def Let_def rn_eta)

lemma getnext_stat:
  assumes "filelist ctx = pfl # fl" "stat_size h (full_path h pfl) = Some sz"
  shows "ptrack_filelist_getnext h ctx log =
     (0, ctx \<lparr> filelist := fl, relpath := rel_path pfl,
               bid := block_id pfl (first_block h pfl),
               relsize := word_of_int (last_block h pfl sz) \<rparr>, log)"
  using assms
  by (subst ptrack_filelist_getnext.simps)
     (simp add: full_path_def rel_path_def block_id_def Let_def first_block_def last_block_def rn_eta)

lemma wi_le:
  "0 \<le> a \<Longrightarrow> a \<le> b \<Longrightarrow> b < 2 ^ 32 \<Longrightarrow> (word_of_int a :: 32 word) \<le> word_of_int b"
  by (simp add: word_le_def uint_word_of_int)

lemma wi_less:
  "0 \<le> a \<Longrightarrow> a < b \<Longrightarrow> b < 2 ^ 32 \<Longrightarrow> (word_of_int a :: 32 word) < word_of_int b"
  by (simp add: word_less_def uint_word_of_int)

lemma loop_step:
  assumes "blocknum (bid ctx) \<le> relsize ctx"
  shows "pagemapset_loop h pmap ctx pm log =
     pagemapset_loop h pmap
       (ctx \<lparr> bid := (bid ctx) \<lparr> blocknum := blocknum (bid ctx) + 1 \<rparr> \<rparr>)
       (if entries pmap (BID_HASH_FUNC h (bid ctx)) \<ge> lsn ctx
        then datapagemap_add pm (blocknum (bid ctx) mod word_of_int (RELSEG_SIZE h))
        else pm)
       log"
proof -
  have "\<not> relsize ctx < blocknum (bid ctx)"
    using assms by simp
  then show ?thesis
    by (subst pagemapset_loop.simps) (simp add: Let_def)
qed

lemma loop_scan:
  assumes "0 \<le> n" "n \<le> r" "r < 2 ^ 32 - 1"
    "bid ctx = block_id pfl n" "relsize ctx = word_of_int r"
  shows "pagemapset_loop h pmap ctx pm log =
     pagemapset_loop h pmap (ctx \<lparr> bid := block_id pfl (r + 1) \<rparr>)
       (fold (scan_block h pmap (lsn ctx) pfl) [n..r] pm) log"
  using assms
proof (induction n r arbitrary: ctx pm rule: upto.induct)
  case (1 i j)
  have le: "blocknum (bid ctx) \<le> relsize ctx"
    using 1 by (simp add: block_id_def wi_le)
  let ?ctx' = "ctx \<lparr> bid := (bid ctx) \<lparr> blocknum := blocknum (bid ctx) + 1 \<rparr> \<rparr>"
  let ?pm' = "scan_block h pmap (lsn ctx) pfl i pm"
  have step: "pagemapset_loop h pmap ctx pm log = pagemapset_loop h pmap ?ctx' ?pm' log"
    using 1 by (subst loop_step [OF le]) (simp add: scan_block_def changed_def block_id_def)
  have bid': "bid ?ctx' = block_id pfl (i + 1)"
    using 1 by (simp add: block_id_def)
  show ?case
  proof (cases "i + 1 \<le> j")
    case True
    have "pagemapset_loop h pmap ?ctx' ?pm' log =
        pagemapset_loop h pmap (?ctx' \<lparr> bid := block_id pfl (j + 1) \<rparr>)
          (fold (scan_block h pmap (lsn ?ctx') pfl) [i + 1..j] ?pm') log"
      using 1 True bid' by (intro "1.IH") simp_all
    then show ?thesis
      using step 1 by (simp add: upto_rec1 [of i j])
  next
    case False
    then have "i = j" using 1 by simp
    then show ?thesis
      using step bid' by (simp add: block_id_def)
  qed
qed

lemma loop_finish_some:
  assumes "relsize ctx < blocknum (bid ctx)" "bitmap pm = Some bits"
  shows "pagemapset_loop h pmap ctx pm log = Some (SRF_RETURN_NEXT (relpath ctx) bits, ctx, log)"
  using assms by (subst pagemapset_loop.simps) simp

lemma loop_finish_done:
  assumes "relsize ctx < blocknum (bid ctx)" "bitmap pm = None"
    "ptrack_filelist_getnext h ctx log = (rc, ctx', log')" "rc < 0"
  shows "pagemapset_loop h pmap ctx pm log = Some (SRF_RETURN_DONE, ctx', log')"
  using assms by (subst pagemapset_loop.simps) simp

lemma loop_finish_next:
  assumes "relsize ctx < blocknum (bid ctx)" "bitmap pm = None"
    "ptrack_filelist_getnext h ctx log = (rc, ctx', log')" "\<not> rc < 0"
    "blocknum (bid ctx') \<le> relsize ctx'"
  shows "pagemapset_loop h pmap ctx pm log = pagemapset_loop h pmap ctx' pm log'"
  using assms
  by (subst pagemapset_loop.simps, subst (2) loop_step) (simp_all add: Let_def)

lemma getnext_cases:
  obtains (exhausted) ctx' log' where "ptrack_filelist_getnext h ctx log = (- 1, ctx', log')"
  | (found) pfl fl sz log' where
      "ptrack_filelist_getnext h ctx log =
        (0, ctx \<lparr> filelist := fl, relpath := rel_path pfl,
               bid := block_id pfl (first_block h pfl),
               relsize := word_of_int (last_block h pfl sz) \<rparr>, log')"
      "stat_size h (full_path h pfl) = Some sz" "pfl \<in> set (filelist ctx)"
proof -
  have "(\<exists>ctx' log'. ptrack_filelist_getnext h ctx log = (- 1, ctx', log')) \<or>
        (\<exists>pfl fl sz log'. ptrack_filelist_getnext h ctx log =
            (0, ctx \<lparr> filelist := fl, relpath := rel_path pfl,
               bid := block_id pfl (first_block h pfl),
               relsize := word_of_int (last_block h pfl sz) \<rparr>, log') \<and>
            stat_size h (full_path h pfl) = Some sz \<and> pfl \<in> set (filelist ctx))"
  proof (induction "filelist ctx" arbitrary: ctx log)
    case Nil
    then show ?case by (simp add: getnext_nil)
  next
    case (Cons pfl fl)
    show ?case
    proof (cases "stat_size h (full_path h pfl)")
      case None
      let ?c = "ctx \<lparr> filelist := fl, relpath := rel_path pfl, bid := block_id pfl 0 \<rparr>"
      let ?l = "log @ [WARNING (''ptrack: cannot stat file '' @ full_path h pfl)]"
      have e: "ptrack_filelist_getnext h ctx log = ptrack_filelist_getnext h ?c ?l"
        using Cons.hyps(2) None by (intro getnext_nostat) simp_all
      have "fl = filelist ?c" by simp
      from Cons.hyps(1) [OF this, of ?l] show ?thesis
        unfolding e using Cons.hyps(2) [symmetric]
        by (auto simp: )
    next
      case (Some sz)
      then show ?thesis
        using getnext_stat [of ctx pfl fl h sz log] Cons.hyps(2) [symmetric]
        by auto
    qed
  qed
  then show thesis using exhausted found by blast
qed

lemma loop_finish_advance:
  assumes "relsize ctx < blocknum (bid ctx)"
    and "\<forall>pfl\<in>set (filelist ctx). file_in_range h pfl"
  shows "pagemapset_loop h pmap ctx \<lparr> bitmap = None \<rparr> log = advance h pmap ctx log"
proof (cases rule: getnext_cases [of h ctx log])
  case (exhausted ctx' log')
  then show ?thesis
    using assms(1) by (simp add: advance_def loop_finish_done [where rc = "- 1"])
next
  case (found pfl fl sz log')
  have "file_in_range h pfl" using found(3) assms(2) by blast
  then have "(word_of_int (first_block h pfl) :: 32 word) \<le> word_of_int (last_block h pfl sz)"
    using found(2) by (intro wi_le) (simp_all add: file_in_range_def)
  then show ?thesis
    using assms(1) found(1)
    by (simp add: advance_def loop_finish_next [where rc = 0] block_id_def)
qed

lemma advance_spec:
  assumes "\<forall>pfl\<in>set (filelist ctx). file_in_range h pfl"
  shows "\<exists>ctx' log'.
      advance h pmap ctx log = Some (fst (next_row h pmap (lsn ctx) (filelist ctx)), ctx', log')
      \<and> lsn ctx' = lsn ctx
      \<and> filelist ctx' = snd (next_row h pmap (lsn ctx) (filelist ctx))"
  using assms
proof (induction "filelist ctx" arbitrary: ctx log)
  case Nil
  then show ?case
    by (simp add: advance_def getnext_nil [of ctx] Nil.hyps [symmetric])
next
  case (Cons pfl fl)
  note fl = Cons.hyps(2) [symmetric]
  show ?case
  proof (cases "stat_size h (full_path h pfl)")
    case None
    let ?c = "ctx \<lparr> filelist := fl, relpath := rel_path pfl, bid := block_id pfl 0 \<rparr>"
    let ?l = "log @ [WARNING (''ptrack: cannot stat file '' @ full_path h pfl)]"
    have e: "advance h pmap ctx log = advance h pmap ?c ?l"
      using getnext_nostat [OF fl None, of log] by (simp add: advance_def)
    have "\<forall>p\<in>set (filelist ?c). file_in_range h p"
      using Cons.prems fl by simp
    from Cons.hyps(1) [of ?c, OF _ this, of ?l] show ?thesis
      unfolding e using None fl by simp
  next
    case (Some sz)
    let ?c1 = "ctx \<lparr> filelist := fl, relpath := rel_path pfl,
               bid := block_id pfl (first_block h pfl),
               relsize := word_of_int (last_block h pfl sz) \<rparr>"
    let ?c2 = "?c1 \<lparr> bid := block_id pfl (last_block h pfl sz + 1) \<rparr>"
    let ?pm = "scan_file h pmap (lsn ctx) pfl sz"
    have rng: "0 \<le> first_block h pfl" "first_block h pfl \<le> last_block h pfl sz"
      "last_block h pfl sz < 2 ^ 32 - 1"
      using Cons.prems fl Some by (simp_all add: file_in_range_def)
    have e1: "advance h pmap ctx log = pagemapset_loop h pmap ?c1 \<lparr> bitmap = None \<rparr> log"
      using getnext_stat [OF fl Some, of log] by (simp add: advance_def)
    have e2: "pagemapset_loop h pmap ?c1 \<lparr> bitmap = None \<rparr> log = pagemapset_loop h pmap ?c2 ?pm log"
      using loop_scan [OF rng, of ?c1 pfl h pmap "\<lparr> bitmap = None \<rparr>" log]
      by (simp add: scan_file_def)
    have "(word_of_int (last_block h pfl sz) :: 32 word) < word_of_int (last_block h pfl sz + 1)"
      using rng by (intro wi_less) simp_all
    then have gt: "relsize ?c2 < blocknum (bid ?c2)"
      by (simp add: block_id_def)
    show ?thesis
    proof (cases "bitmap ?pm")
      case (Some bits)
      then show ?thesis
        using e1 e2 loop_finish_some [OF gt Some, of h pmap log] fl \<open>stat_size h (full_path h pfl) = Some sz\<close>
        by simp
    next
      case None
      then have pm: "?pm = \<lparr> bitmap = None \<rparr>" by simp
      have inr: "\<forall>p\<in>set (filelist ?c2). file_in_range h p"
        using Cons.prems fl by simp
      have e3: "pagemapset_loop h pmap ?c2 ?pm log = advance h pmap ?c2 log"
        unfolding pm by (rule loop_finish_advance [OF gt inr])
      from Cons.hyps(1) [of ?c2, OF _ inr, of log] show ?thesis
        using e1 e2 e3 None fl \<open>stat_size h (full_path h pfl) = Some sz\<close> by simp
    qed
  qed
qed

lemma next_row_done:
  "fst (next_row h pmap thr fl) = SRF_RETURN_DONE \<Longrightarrow> expected_rows h pmap thr fl = []"
  by (induction fl) (auto split: option.splits)

lemma next_row_next:
  "next_row h pmap thr fl = (SRF_RETURN_NEXT p bits, fl') \<Longrightarrow>
     expected_rows h pmap thr fl = (p, bits) # expected_rows h pmap thr fl'
     \<and> length fl' < length fl \<and> set fl' \<subseteq> set fl"
  by (induction fl) (auto split: option.splits)

lemma call_spec:
  assumes "ptrack_map h = Some pmap"
    and "\<forall>pfl\<in>set (filelist (start_ctx h arg_lsn user_fctx)). file_in_range h pfl"
  shows "\<exists>ctx' log'.
      ptrack_get_pagemapset h arg_lsn user_fctx =
        Some (Inr (fst (next_row h pmap (lsn (start_ctx h arg_lsn user_fctx))
                          (filelist (start_ctx h arg_lsn user_fctx))), ctx', log'))
      \<and> lsn ctx' = lsn (start_ctx h arg_lsn user_fctx)
      \<and> filelist ctx' = snd (next_row h pmap (lsn (start_ctx h arg_lsn user_fctx))
                                 (filelist (start_ctx h arg_lsn user_fctx)))"
proof -
  let ?c = "start_ctx h arg_lsn user_fctx"
  let ?l = "case user_fctx of None \<Rightarrow> snd (first_call_init h arg_lsn) | Some c \<Rightarrow> []"
  have "ptrack_get_pagemapset h arg_lsn user_fctx = map_option Inr (advance h pmap ?c ?l)"
    using assms(1)
    by (simp add: ptrack_get_pagemapset_def advance_def start_ctx_def
        split: option.splits prod.splits)
  then show ?thesis
    using advance_spec [OF assms(2), of pmap ?l] by auto
qed

lemma fetch_all_Some:
  assumes "ptrack_map h = Some pmap"
    and "\<forall>pfl\<in>set (filelist ctx). file_in_range h pfl"
  shows "fetch_all h arg_lsn (Some ctx) =
     Some (Inr (expected_rows h pmap (lsn ctx) (filelist ctx)))"
  using assms(2)
proof (induction "length (filelist ctx)" arbitrary: ctx rule: less_induct)
  case less
  obtain ctx' log' where c:
    "ptrack_get_pagemapset h arg_lsn (Some ctx) =
        Some (Inr (fst (next_row h pmap (lsn ctx) (filelist ctx)), ctx', log'))"
    "lsn ctx' = lsn ctx" "filelist ctx' = snd (next_row h pmap (lsn ctx) (filelist ctx))"
    using call_spec [OF assms(1), of arg_lsn "Some ctx"] less.prems
    by (auto simp: start_ctx_def)
  show ?case
  proof (cases "fst (next_row h pmap (lsn ctx) (filelist ctx))")
    case SRF_RETURN_DONE
    then show ?thesis
      using c next_row_done [OF SRF_RETURN_DONE]
      by (subst fetch_all.simps) simp
  next
    case (SRF_RETURN_NEXT p bits)
    then have nr: "next_row h pmap (lsn ctx) (filelist ctx) = (SRF_RETURN_NEXT p bits, filelist ctx')"
      using c(3) by (simp add: prod_eq_iff)
    note n = next_row_next [OF nr]
    have "fetch_all h arg_lsn (Some ctx') =
        Some (Inr (expected_rows h pmap (lsn ctx') (filelist ctx')))"
      using n less.prems by (intro less.hyps) auto
    then show ?thesis
      using c n SRF_RETURN_NEXT
      by (subst fetch_all.simps) simp
  qed
qed

lemma fetch_all_spec:
  assumes "ptrack_map h = Some pmap"
    and "\<forall>pfl\<in>set (filelist (start_ctx h arg_lsn user_fctx)). file_in_range h pfl"
  shows "fetch_all h arg_lsn user_fctx =
     Some (Inr (expected_rows h pmap (lsn (start_ctx h arg_lsn user_fctx))
                  (filelist (start_ctx h arg_lsn user_fctx))))"
proof -
  let ?c = "start_ctx h arg_lsn user_fctx"
  obtain ctx' log' where c:
    "ptrack_get_pagemapset h arg_lsn user_fctx =
        Some (Inr (fst (next_row h pmap (lsn ?c) (filelist ?c)), ctx', log'))"
    "lsn ctx' = lsn ?c" "filelist ctx' = snd (next_row h pmap (lsn ?c) (filelist ?c))"
    using call_spec [OF assms] by auto
  show ?thesis
  proof (cases "fst (next_row h pmap (lsn ?c) (filelist ?c))")
    case SRF_RETURN_DONE
    then show ?thesis
      using c next_row_done [OF SRF_RETURN_DONE]
      by (subst fetch_all.simps) simp
  next
    case (SRF_RETURN_NEXT p bits)
    then have nr: "next_row h pmap (lsn ?c) (filelist ?c) = (SRF_RETURN_NEXT p bits, filelist ctx')"
      using c(3) by (simp add: prod_eq_iff)
    note n = next_row_next [OF nr]
    have "fetch_all h arg_lsn (Some ctx') =
        Some (Inr (expected_rows h pmap (lsn ctx') (filelist ctx')))"
      using n assms by (intro fetch_all_Some) auto
    then show ?thesis
      using c n SRF_RETURN_NEXT
      by (subst fetch_all.simps) simp
  qed
qed

subsection \<open>The page map and the bits of a scan\<close>

lemma add_not_None: "bitmap (datapagemap_add pm w) \<noteq> None"
  by (simp add: datapagemap_add_def Let_def)

lemma pm_bit_add: "pm_bit (datapagemap_add pm w) i \<longleftrightarrow> i = unat w \<or> pm_bit pm i"
  by (auto simp: pm_bit_def datapagemap_add_def Let_def bit_is_set_def nth_list_update
      nth_append nth_Cons' split: option.splits)

lemma fold_scan_None:
  "bitmap (fold (scan_block h pmap thr pfl) ks pm) = None \<longleftrightarrow>
     bitmap pm = None \<and> (\<forall>k\<in>set ks. \<not> changed h pmap thr pfl k)"
  by (induction ks arbitrary: pm) (auto simp: scan_block_def add_not_None)

lemma fold_scan_bit:
  "pm_bit (fold (scan_block h pmap thr pfl) ks pm) i \<longleftrightarrow>
     pm_bit pm i \<or>
     (\<exists>k\<in>set ks. changed h pmap thr pfl k
        \<and> unat (word_of_int k mod word_of_int (RELSEG_SIZE h) :: 32 word) = i)"
  by (induction ks arbitrary: pm) (auto simp: scan_block_def pm_bit_add)

lemma unat_block_offset:
  assumes "0 \<le> k" "k < 2 ^ 32" "0 < r" "r < 2 ^ 32"
  shows "unat (word_of_int k mod word_of_int r :: 32 word) = nat (k mod r)"
  using assms
  by (simp add: unat_eq_nat_uint uint_mod uint_word_of_int)

lemma first_call_filelist: "filelist (fst (first_call_init h a)) = enumerated_files h"
  by (simp add: enumerated_files_def first_call_init_def Let_def)

lemma first_call_lsn: "lsn (fst (first_call_init h a)) = a"
  by (simp add: first_call_init_def Let_def)

subsection \<open>Evaluating the example host\<close>

lemmas fmt_nat_eval = fmt_nat.simps [of "numeral n" for n] fmt_nat.simps [of 0] fmt_nat.simps [of 1]
  fmt_nat.simps [of "Suc 0"]

lemmas ex_eval =
  ex_host_def ex_datadir_def ex_stat_def ex_map_def ex_hash_def
  pg_parse_filename_def pg_name_tail_def pg_forkname_chars_def pg_looks_like_temp_def
  pg_GetRelationPath_def pg_fork_suffix_def
  strspn_def strlen_def digit_chars_def OIDCHARS_def starts_with_def
  atooid_def strtoul_def atoi_def strtol_def scan_number_def digits_value_def isspace_def
  fmt_int_def fmt_nat_eval
  InvalidOid_def GLOBALTABLESPACE_OID_def DEFAULTTABLESPACE_OID_def InvalidXLogRecPtr_def

lemma ex_enumerated:
  "enumerated_files ex_host =
     [\<lparr> pfl_relnode = \<lparr> spcNode = 1664, dbNode = 0, relNode = 1262 \<rparr>,
        pfl_forknum = MAIN_FORKNUM, pfl_segno = 0, pfl_path = ''global/1262'' \<rparr>,
      \<lparr> pfl_relnode = \<lparr> spcNode = 1663, dbNode = 1, relNode = 16384 \<rparr>,
        pfl_forknum = MAIN_FORKNUM, pfl_segno = 0, pfl_path = ''base/1/16384'' \<rparr>,
      \<lparr> pfl_relnode = \<lparr> spcNode = 1663, dbNode = 1, relNode = 16385 \<rparr>,
        pfl_forknum = MAIN_FORKNUM, pfl_segno = 0, pfl_path = ''base/1/16385'' \<rparr>,
      \<lparr> pfl_relnode = \<lparr> spcNode = 1663, dbNode = 1, relNode = 16385 \<rparr>,
        pfl_forknum = FSM_FORKNUM, pfl_segno = 0, pfl_path = ''base/1/16385_fsm'' \<rparr>,
      \<lparr> pfl_relnode = \<lparr> spcNode = 16400, dbNode = 5, relNode = 16500 \<rparr>,
        pfl_forknum = MAIN_FORKNUM, pfl_segno = 1,
        pfl_path = ''pg_tblspc/16400/PG_12_201909212/5/16500'' \<rparr>]"
  by (simp add: enumerated_files_def first_call_init_def AllocateDir_def gather_entry.simps
      Let_def ex_eval)

subsection \<open>The OIDs in the path of a copied directory\<close>

lemma digits_value_foldl_bound:
  "\<forall>c\<in>set ds. c \<in> set digit_chars \<Longrightarrow>
     foldl (\<lambda>a c. 10 * a + (of_char c - 48)) (a::nat) ds < (a + 1) * 10 ^ length ds"
proof (induction ds arbitrary: a)
  case Nil
  then show ?case by simp
next
  case (Cons c ds)
  have "c \<in> set digit_chars" using Cons.prems by simp
  then have d: "(of_char c :: nat) - 48 \<le> 9"
    by (auto simp: digit_chars_def)
  have "foldl (\<lambda>a c. 10 * a + (of_char c - 48)) (10 * a + (of_char c - 48)) ds
      < (10 * a + (of_char c - 48) + 1) * 10 ^ length ds"
    using Cons.prems by (intro Cons.IH) simp
  also have "\<dots> \<le> (10 * a + 10) * 10 ^ length ds"
    using d by (intro mult_right_mono) simp_all
  finally show ?case by (simp add: algebra_simps)
qed

lemma digits_value_bound:
  "\<forall>c\<in>set ds. c \<in> set digit_chars \<Longrightarrow> digits_value ds < 10 ^ length ds"
  using digits_value_foldl_bound [of ds 0] by (simp add: digits_value_def)

lemma ucast_64_32_of_nat:
  "v < 2 ^ 64 \<Longrightarrow> (ucast (word_of_nat v :: 64 word) :: 32 word) = word_of_nat v"
  by (simp add: unsigned_of_nat take_bit_nat_eq_self)

lemma scan_number_digits:
  assumes "\<forall>c\<in>set ds. c \<in> set digit_chars"
  shows "scan_number ds = (False, digits_value ds)"
proof (cases ds)
  case Nil
  then show ?thesis by (simp add: scan_number_def)
next
  case (Cons c cs)
  then have "c \<in> set digit_chars" using assms by simp
  then have "\<not> isspace c" "c \<noteq> CHR ''-''" "c \<noteq> CHR ''+''"
    by (auto simp: digit_chars_def isspace_def)
  moreover have "takeWhile (\<lambda>c. c \<in> set digit_chars) ds = ds"
    using assms by (simp add: takeWhile_eq_all_conv)
  ultimately show ?thesis
    using Cons by (simp add: scan_number_def)
qed

lemma atooid_digits:
  assumes "\<forall>c\<in>set ds. c \<in> set digit_chars" "length ds \<le> OIDCHARS"
  shows "atooid ds = word_of_nat (digits_value ds)"
proof -
  have "digits_value ds < 10 ^ length ds"
    by (rule digits_value_bound [OF assms(1)])
  also have "(10::nat) ^ length ds \<le> 10 ^ 10"
    using assms(2) by (intro power_increasing) (simp_all add: OIDCHARS_def)
  finally have "digits_value ds < 2 ^ 64" by simp
  then show ?thesis
    by (simp add: atooid_def strtoul_def scan_number_digits [OF assms(1)] ucast_64_32_of_nat)
qed

lemma copy_oid_eq:
  "copy_oid s =
     (if strspn s digit_chars > OIDCHARS then Inl BUFFER_OVERRUN
      else Inr (takeWhile (\<lambda>c. c \<in> set digit_chars) s))"
  by (simp add: copy_oid_def strspn_def Let_def takeWhile_eq_take [symmetric])

lemma atooid_copy:
  assumes "strspn s digit_chars \<le> OIDCHARS"
  shows "atooid (takeWhile (\<lambda>c. c \<in> set digit_chars) s) = oid_at s"
proof -
  have "\<forall>c\<in>set (takeWhile (\<lambda>c. c \<in> set digit_chars) s). c \<in> set digit_chars"
    by (auto dest: set_takeWhileD)
  then show ?thesis
    using assms by (simp add: atooid_digits strspn_def oid_at_def)
qed

lemma base_not_global: "starts_with path ''base/'' \<Longrightarrow> \<not> starts_with path ''global/''"
  by (cases path) (auto simp: starts_with_def)

lemma tblspc_not_global: "starts_with path ''pg_tblspc/'' \<Longrightarrow> \<not> starts_with path ''global/''"
  by (cases path) (auto simp: starts_with_def)

lemma tblspc_not_base: "starts_with path ''pg_tblspc/'' \<Longrightarrow> \<not> starts_with path ''base/''"
  by (cases path) (auto simp: starts_with_def)

lemma copydir_global:
  "starts_with path ''global/'' \<Longrightarrow>
     ptrack_copydir_hook h prev path =
       Inr (call_ptrack_walkdir path GLOBALTABLESPACE_OID InvalidOid
            # (if prev then [call_prev_copydir_hook path] else []))"
  by (simp add: ptrack_copydir_hook_def)

lemma copydir_base:
  "starts_with path ''base/'' \<Longrightarrow> strspn (drop 5 path) digit_chars \<le> OIDCHARS \<Longrightarrow>
     ptrack_copydir_hook h prev path =
       Inr (call_ptrack_walkdir path DEFAULTTABLESPACE_OID (oid_at (drop 5 path))
            # (if prev then [call_prev_copydir_hook path] else []))"
  by (simp add: ptrack_copydir_hook_def base_not_global copy_oid_eq atooid_copy)

lemma copydir_tblspc:
  "starts_with path ''pg_tblspc/'' \<Longrightarrow> strspn (drop 10 path) digit_chars \<le> OIDCHARS \<Longrightarrow>
   strstr path (TABLESPACE_VERSION_DIRECTORY h) = Some found \<Longrightarrow>
   strlen (TABLESPACE_VERSION_DIRECTORY h) < length found \<Longrightarrow>
   strspn (drop (strlen (TABLESPACE_VERSION_DIRECTORY h) + 1) found) digit_chars \<le> OIDCHARS \<Longrightarrow>
     ptrack_copydir_hook h prev path =
       Inr (call_ptrack_walkdir path (oid_at (drop 10 path))
              (oid_at (drop (strlen (TABLESPACE_VERSION_DIRECTORY h) + 1) found))
            # (if prev then [call_prev_copydir_hook path] else []))"
  by (simp add: ptrack_copydir_hook_def tblspc_not_global tblspc_not_base copy_oid_eq atooid_copy)

subsection \<open>No error with the map present, and the entries that are skipped\<close>

lemma pagemapset_no_error:
  "ptrack_map h = Some pmap \<Longrightarrow> ptrack_get_pagemapset h arg_lsn user_fctx \<noteq> Some (Inl e)"
  by (auto simp: ptrack_get_pagemapset_def split: option.splits prod.splits)

lemma fetch_all_no_error:
  assumes "ptrack_map h = Some pmap" "fetch_all h arg_lsn user_fctx = Some r"
  shows "\<exists>rows. r = Inr rows"
proof -
  have "ptrack_map h = Some pmap \<longrightarrow> (\<exists>rows. r = Inr rows)"
  proof (rule fetch_all.raw_induct
      [where P = "\<lambda>h a f y. ptrack_map h = Some pmap \<longrightarrow> (\<exists>rows. y = Inr rows)",
        OF _ assms(2)])
    fix fa h' a f y
    assume IH: "\<And>a f b y. fa a f b = Some y \<Longrightarrow>
        ptrack_map a = Some pmap \<longrightarrow> (\<exists>rows. y = Inr rows)"
      and eq: "(case ptrack_get_pagemapset h' a f of None \<Rightarrow> None
         | Some (Inl e) \<Rightarrow> Some (Inl e)
         | Some (Inr (SRF_RETURN_DONE, ctx, log)) \<Rightarrow> Some (Inr [])
         | Some (Inr (SRF_RETURN_NEXT p bits, ctx, log)) \<Rightarrow>
             Option.bind (fa h' a (Some ctx))
               (\<lambda>r. case r of Inl e \<Rightarrow> Some (Inl e)
                    | Inr rows \<Rightarrow> Some (Inr ((p, bits) # rows)))) = Some y"
    show "ptrack_map h' = Some pmap \<longrightarrow> (\<exists>rows. y = Inr rows)"
    proof
      assume m: "ptrack_map h' = Some pmap"
      have IH': "\<And>ctx e. fa h' a (Some ctx) \<noteq> Some (Inl e)"
        using IH m by fastforce
      show "\<exists>rows. y = Inr rows"
        using eq IH' pagemapset_no_error [OF m]
        apply (auto split: option.splits sum.splits srf_result.splits prod.splits
            simp: bind_eq_Some_conv)
        subgoal for p bits c l ya by (cases ya) auto
        done
    qed
  qed
  then show ?thesis using assms(1) by simp
qed

lemma gather_skip_name:
  "d_name = ''.'' \<or> d_name = ''..'' \<or> looks_like_temp_rel_name h d_name \<Longrightarrow>
     gather_entry h d_name nd path spcOid dbOid st = st"
  by (subst gather_entry.simps) simp

lemma gather_nostat:
  "d_name \<noteq> ''.'' \<Longrightarrow> d_name \<noteq> ''..'' \<Longrightarrow> \<not> looks_like_temp_rel_name h d_name \<Longrightarrow>
     gather_entry h d_name NoStat path spcOid dbOid st =
       (fst st, snd st @ [LOG (''ptrack: could not stat file \"'' @ path @ ''/'' @ d_name @ ''\"'')])"
  by (subst gather_entry.simps) simp

lemma gather_unparsed:
  "parse_filename_for_nontemp_relation h d_name = None \<Longrightarrow>
     gather_entry h d_name Regular path spcOid dbOid st = st"
  by (subst gather_entry.simps) simp

lemma fetch_all_skip_nostat:
  assumes "ptrack_map h = Some pmap" "filelist ctx = pfl # fl"
    "stat_size h (full_path h pfl) = None" "\<forall>p\<in>set fl. file_in_range h p"
  shows "fetch_all h arg_lsn (Some ctx) = fetch_all h arg_lsn (Some (ctx \<lparr> filelist := fl \<rparr>))"
proof -
  have "file_in_range h pfl" using assms(3) by (simp add: file_in_range_def)
  then have "\<forall>p\<in>set (filelist ctx). file_in_range h p" using assms(2,4) by simp
  then show ?thesis
    using assms by (simp add: fetch_all_Some [where pmap = pmap])
qed

subsection \<open>The rows of the complete query\<close>

lemmas file_eval = full_path_def rel_path_def first_block_def last_block_def c_div_def
  block_id_def file_in_range_def

lemma scan_file_None:
  "bitmap (scan_file h pmap thr pfl sz) = None \<longleftrightarrow>
     \<not> list_ex (changed h pmap thr pfl) (scanned_blocks h pfl sz)"
  by (simp add: scan_file_def scanned_blocks_def fold_scan_None list_ex_iff)

lemma file_bitmap_None_iff:
  "file_bitmap h pmap thr pfl = None \<longleftrightarrow>
     (case stat_size h (full_path h pfl) of
        None \<Rightarrow> True
      | Some sz \<Rightarrow> \<not> list_ex (changed h pmap thr pfl) (scanned_blocks h pfl sz))"
  by (simp add: file_bitmap_def scan_file_None split: option.splits)

lemma expected_rows_char:
  "list_all2 (\<lambda>pfl row. fst row = rel_path pfl \<and> file_bitmap h pmap thr pfl = Some (snd row))
     (filter (\<lambda>pfl. file_bitmap h pmap thr pfl \<noteq> None) fl) (expected_rows h pmap thr fl)"
  by (induction fl) (auto simp: file_bitmap_def split: option.splits)

lemma scan_file_bits:
  assumes "bitmap (scan_file h pmap thr pfl sz) = Some bits"
  shows "bit_is_set bits i \<longleftrightarrow>
     (\<exists>k\<in>set (scanned_blocks h pfl sz). changed h pmap thr pfl k
        \<and> unat (word_of_int k mod word_of_int (RELSEG_SIZE h) :: 32 word) = i)"
  using fold_scan_bit [of h pmap thr pfl "scanned_blocks h pfl sz" "\<lparr> bitmap = None \<rparr>" i] assms
  by (simp add: pm_bit_def scan_file_def scanned_blocks_def)

lemma file_bitmap_has_bit:
  assumes "file_bitmap h pmap thr pfl = Some bits"
  shows "\<exists>i. bit_is_set bits i"
proof -
  obtain sz where sz: "stat_size h (full_path h pfl) = Some sz"
    "bitmap (scan_file h pmap thr pfl sz) = Some bits"
    using assms by (auto simp: file_bitmap_def split: option.splits)
  have "list_ex (changed h pmap thr pfl) (scanned_blocks h pfl sz)"
    using sz(2) scan_file_None [of h pmap thr pfl sz] by auto
  then obtain k where "k \<in> set (scanned_blocks h pfl sz)" "changed h pmap thr pfl k"
    by (auto simp: list_ex_iff)
  then show ?thesis
    using scan_file_bits [OF sz(2)] by blast
qed

lemma query_rows:
  assumes "ptrack_map h = Some pmap"
    and "\<forall>pfl\<in>set (enumerated_files h). file_in_range h pfl"
  shows "ptrack_query h thr = Some (Inr (expected_rows h pmap thr (enumerated_files h)))"
  using fetch_all_spec [of h pmap thr None] assms
  by (simp add: ptrack_query_def start_ctx_def first_call_filelist first_call_lsn)

lemma ex_in_range: "list_all (file_in_range ex_host) (enumerated_files ex_host)"
  by (simp add: ex_enumerated) (simp add: ex_host_def ex_stat_def file_eval fmt_int_def fmt_nat_eval digit_chars_def)

lemmas scan_eval = scan_file_def scan_block_def changed_def datapagemap_add_def upto.simps

lemma ex_rows_100:
  "expected_rows ex_host ex_map 100 (enumerated_files ex_host) =
     [(''global/1262'', [False, True]),
      (''base/1/16384'', [False, True, True]),
      (''base/1/16385'', [True]),
      (''pg_tblspc/16400/PG_12_201909212/5/16500.1'', [False, True])]"
  by (simp add: ex_enumerated)
     (simp add: ex_host_def ex_stat_def ex_map_def ex_hash_def file_eval scan_eval
       fmt_int_def fmt_nat_eval digit_chars_def Let_def)

subsection \<open>The invalid LSN as the threshold\<close>

lemma changed_zero: "changed h pmap InvalidXLogRecPtr pfl k"
  by (simp add: changed_def InvalidXLogRecPtr_def)

lemma scanned_blocks_range:
  assumes "file_in_range h pfl" "stat_size h (full_path h pfl) = Some sz"
    "k \<in> set (scanned_blocks h pfl sz)"
  shows "0 \<le> k" "k < 2 ^ 32"
  using assms by (auto simp: file_in_range_def scanned_blocks_def)

lemma scanned_blocks_nonempty:
  assumes "file_in_range h pfl" "stat_size h (full_path h pfl) = Some sz"
  shows "first_block h pfl \<in> set (scanned_blocks h pfl sz)"
  using assms by (auto simp: file_in_range_def scanned_blocks_def)

lemma file_bitmap_zero:
  assumes "file_in_range h pfl"
  shows "file_bitmap h pmap InvalidXLogRecPtr pfl \<noteq> None
     \<longleftrightarrow> stat_size h (full_path h pfl) \<noteq> None"
proof (cases "stat_size h (full_path h pfl)")
  case None
  then show ?thesis by (simp add: file_bitmap_def)
next
  case (Some sz)
  have "list_ex (changed h pmap InvalidXLogRecPtr pfl) (scanned_blocks h pfl sz)"
    using scanned_blocks_nonempty [OF assms Some] changed_zero [of h pmap pfl]
    by (auto simp: list_ex_iff)
  then show ?thesis
    using Some file_bitmap_None_iff [of h pmap InvalidXLogRecPtr pfl] by simp
qed

lemma zero_bits:
  assumes "file_in_range h pfl" "0 < RELSEG_SIZE h" "RELSEG_SIZE h < 2 ^ 32"
    "file_bitmap h pmap InvalidXLogRecPtr pfl = Some bits"
  shows "\<exists>sz. stat_size h (full_path h pfl) = Some sz
     \<and> list_all (\<lambda>k. bit_is_set bits (nat (k mod RELSEG_SIZE h))) (scanned_blocks h pfl sz)"
proof -
  obtain sz where sz: "stat_size h (full_path h pfl) = Some sz"
    "bitmap (scan_file h pmap InvalidXLogRecPtr pfl sz) = Some bits"
    using assms(4) by (auto simp: file_bitmap_def split: option.splits)
  have "bit_is_set bits (nat (k mod RELSEG_SIZE h))" if k: "k \<in> set (scanned_blocks h pfl sz)" for k
  proof -
    have "unat (word_of_int k mod word_of_int (RELSEG_SIZE h) :: 32 word) = nat (k mod RELSEG_SIZE h)"
      using scanned_blocks_range [OF assms(1) sz(1) k] assms(2,3)
      by (intro unat_block_offset)
    then show ?thesis
      using scan_file_bits [OF sz(2), of "nat (k mod RELSEG_SIZE h)"] k changed_zero [of h pmap pfl k]
      by blast
  qed
  then show ?thesis using sz(1) by (simp add: list_all_iff)
qed

subsection \<open>A file whose last block number is the largest 32-bit number\<close>

lemma loop_never_returns:
  assumes "relsize ctx = - 1"
  shows "pagemapset_loop h pmap ctx pm log = None"
proof (rule ccontr)
  assume "pagemapset_loop h pmap ctx pm log \<noteq> None"
  then obtain y where y: "pagemapset_loop h pmap ctx pm log = Some y" by auto
  have "relsize ctx \<noteq> - 1"
  proof (rule pagemapset_loop.raw_induct
      [where P = "\<lambda>h pmap ctx pm log y. relsize ctx \<noteq> - 1", OF _ y])
    fix f h' pmap' ctx' pm' log' y'
    assume IH: "\<And>a b c d e y. f a b c d e = Some y \<Longrightarrow> relsize c \<noteq> - 1"
      and eq: "(case
        (if blocknum (bid ctx') > relsize ctx' then
           (case bitmap pm' of
              Some bits \<Rightarrow> Inl (SRF_RETURN_NEXT (relpath ctx') bits, ctx', log')
            | None \<Rightarrow>
                (case ptrack_filelist_getnext h' ctx' log' of
                   (rc, ctx'', log'') \<Rightarrow>
                     if rc < 0 then Inl (SRF_RETURN_DONE, ctx'', log'') else Inr (ctx'', log'')))
         else Inr (ctx', log'))
      of
        Inl r \<Rightarrow> Some r
      | Inr (ctx1, log1) \<Rightarrow>
          (let update_lsn = entries pmap' (BID_HASH_FUNC h' (bid ctx1));
               pagemap1 =
                 (if update_lsn \<ge> lsn ctx1
                  then datapagemap_add pm'
                         (blocknum (bid ctx1) mod word_of_int (RELSEG_SIZE h'))
                  else pm');
               ctx2 = ctx1 \<lparr> bid := (bid ctx1) \<lparr> blocknum := blocknum (bid ctx1) + 1 \<rparr> \<rparr>
           in f h' pmap' ctx2 pagemap1 log1)) = Some y'"
    show "relsize ctx' \<noteq> - 1"
    proof
      assume m: "relsize ctx' = - 1"
      then have "\<not> relsize ctx' < blocknum (bid ctx')" by simp
      then obtain pm2 where
        "f h' pmap' (ctx' \<lparr> bid := (bid ctx') \<lparr> blocknum := blocknum (bid ctx') + 1 \<rparr> \<rparr>) pm2 log'
          = Some y'"
        using eq by (simp add: Let_def)
      from IH [OF this] show False using m by simp
    qed
  qed
  then show False using assms by simp
qed

lemma replicate_numeral_eval: "replicate (numeral k) x = x # replicate (pred_numeral k) x"
  by (simp add: numeral_eq_Suc)

lemma list_update_numeral_eval: "(x # xs)[numeral k := y] = x # xs[pred_numeral k := y]"
  by (simp add: numeral_eq_Suc)

lemma pagemapset_advance:
  assumes "ptrack_map h = Some pmap"
  shows "ptrack_get_pagemapset h arg_lsn user_fctx =
     map_option Inr
       (advance h pmap (start_ctx h arg_lsn user_fctx)
          (case user_fctx of None \<Rightarrow> snd (first_call_init h arg_lsn) | Some c \<Rightarrow> []))"
  using assms
  by (simp add: ptrack_get_pagemapset_def advance_def start_ctx_def
      split: option.splits prod.splits)

lemma ex_max_enumerated: "enumerated_files ex_host_max = [ex_last_segment]"
  by (simp add: enumerated_files_def first_call_init_def AllocateDir_def gather_entry.simps
      Let_def ex_host_max_def ex_last_segment_def ex_eval)

lemma ex_slot2_enumerated: "enumerated_files ex_host_slot2 = enumerated_files ex_host"
  by (simp add: ex_enumerated)
     (simp add: enumerated_files_def first_call_init_def AllocateDir_def gather_entry.simps
      Let_def ex_host_slot2_def ex_eval)

subsection \<open>Blocks with distinct offsets\<close>

lemma mod_inj_on_short_interval:
  fixes k k' r :: int
  assumes "\<bar>k - k'\<bar> < r" "k mod r = k' mod r"
  shows "k = k'"
proof -
  have *: "a = b" if "b \<le> a" "a - b < r" "a mod r = b mod r" for a b :: int
  proof -
    have "(a - b) mod r = (b - b) mod r"
      using that(3) by (rule mod_diff_cong) simp
    then have "(a - b) mod r = 0" by simp
    moreover have "(a - b) mod r = a - b"
      using that by (intro mod_pos_pos_trivial) simp_all
    ultimately show ?thesis by simp
  qed
  show ?thesis
  proof (cases "k' \<le> k")
    case True
    then show ?thesis using assms * [of k' k] by simp
  next
    case False
    then show ?thesis using assms * [of k k'] by simp
  qed
qed

lemma bit_iff_changed_when_offsets_distinct:
  assumes "file_in_range h pfl" "0 < RELSEG_SIZE h" "RELSEG_SIZE h < 2 ^ 32"
    and "stat_size h (full_path h pfl) = Some sz"
    and "last_block h pfl sz - first_block h pfl < RELSEG_SIZE h"
    and "file_bitmap h pmap thr pfl = Some bits"
    and "k \<in> set (scanned_blocks h pfl sz)"
  shows "bit_is_set bits (nat (k mod RELSEG_SIZE h)) \<longleftrightarrow> changed h pmap thr pfl k"
proof -
  let ?r = "RELSEG_SIZE h"
  have bits: "bitmap (scan_file h pmap thr pfl sz) = Some bits"
    using assms(4,6) by (simp add: file_bitmap_def)
  have off: "unat (word_of_int j mod word_of_int ?r :: 32 word) = nat (j mod ?r)"
    if "j \<in> set (scanned_blocks h pfl sz)" for j
    using scanned_blocks_range [OF assms(1,4) that] assms(2,3) by (intro unat_block_offset)
  have inj: "j = k" if "j \<in> set (scanned_blocks h pfl sz)" "nat (j mod ?r) = nat (k mod ?r)" for j
  proof -
    have "j mod ?r = k mod ?r"
      using that(2) assms(2) by (simp add: nat_eq_iff)
    moreover have "\<bar>j - k\<bar> < ?r"
      using that(1) assms(5,7) by (auto simp: scanned_blocks_def)
    ultimately show ?thesis by (rule mod_inj_on_short_interval [rotated])
  qed
  show ?thesis
    using scan_file_bits [OF bits, of "nat (k mod ?r)"] off inj assms(7) by auto
qed

subsection \<open>The files the walk lists, and the list that only shrinks\<close>

lemma gather_keeps_in_db_or_global:
  "list_all in_db_or_global (fst st) \<Longrightarrow>
     list_all in_db_or_global (fst (ptrack_gather_filelist h des path spcOid dbOid st))"
  "list_all in_db_or_global (fst st) \<Longrightarrow>
     list_all in_db_or_global (fst (gather_entry h d_name nd path spcOid dbOid st))"
proof (induction h des path spcOid dbOid st and h d_name nd path spcOid dbOid st
    rule: ptrack_gather_filelist_gather_entry.induct)
  case (1 h path spcOid dbOid st)
  then show ?case by simp
next
  case (2 h d_name nd des path spcOid dbOid st)
  then show ?case by simp
next
  case (3 h d_name nd path spcOid dbOid st)
  show ?case
  proof (cases nd)
    case Regular
    then show ?thesis
      using 3(4)
      by (subst gather_entry.simps)
         (auto simp: Let_def list_all_iff in_db_or_global_def InvalidOid_def
           GLOBALTABLESPACE_OID_def split: option.splits)
  next
    case (Directory es)
    then show ?thesis
      using 3(1,2,4) by (subst gather_entry.simps) (auto simp: Let_def)
  next
    case (Symlink es)
    then show ?thesis
      using 3(3,4) by (subst gather_entry.simps) (auto simp: Let_def)
  qed (use 3(4) in \<open>subst gather_entry.simps, simp\<close>)+
qed

lemma enumerated_in_db_or_global: "list_all in_db_or_global (enumerated_files h)"
  by (simp add: enumerated_files_def first_call_init_def Let_def gather_keeps_in_db_or_global)

lemma getnext_shrinks:
  "ptrack_filelist_getnext h ctx log = (rc, ctx', log') \<Longrightarrow>
     (filelist ctx = [] \<longrightarrow> rc = - 1 \<and> ctx' = ctx \<and> log' = log)
     \<and> (filelist ctx \<noteq> [] \<longrightarrow> length (filelist ctx') < length (filelist ctx))
     \<and> (\<exists>n. filelist ctx' = drop n (filelist ctx))
     \<and> (rc = 0 \<or> rc = - 1 \<and> filelist ctx' = [])"
proof (induction "filelist ctx" arbitrary: ctx log)
  case Nil
  then show ?case
    using getnext_nil [of ctx h log] by (auto intro: exI [of _ 0])
next
  case (Cons pfl fl)
  note fl = Cons.hyps(2) [symmetric]
  show ?case
  proof (cases "stat_size h (full_path h pfl)")
    case None
    let ?c = "ctx \<lparr> filelist := fl, relpath := rel_path pfl, bid := block_id pfl 0 \<rparr>"
    let ?l = "log @ [WARNING (''ptrack: cannot stat file '' @ full_path h pfl)]"
    have e: "ptrack_filelist_getnext h ?c ?l = (rc, ctx', log')"
      using getnext_nostat [OF fl None, of log] Cons.prems by simp
    have "fl = filelist ?c" by simp
    from Cons.hyps(1) [OF this e] obtain n where
      n: "filelist ctx' = drop n fl" "rc = 0 \<or> rc = - 1 \<and> filelist ctx' = []"
      by auto
    then have "filelist ctx' = drop (Suc n) (filelist ctx)" using fl by simp
    then show ?thesis using fl n by (auto simp del: drop_Suc_Cons)
  next
    case (Some sz)
    then show ?thesis
      using getnext_stat [OF fl Some, of log] Cons.prems fl
      by (auto intro: exI [of _ 1])
  qed
qed

lemma expected_rows_length: "length (expected_rows h pmap thr fl) \<le> length fl"
  by (induction fl) (auto split: option.splits)

lemma scanned_blocks_length:
  "0 \<le> c_div sz (BLCKSZ h) \<Longrightarrow>
     length (scanned_blocks h pfl sz) = nat (c_div sz (BLCKSZ h)) + 1"
  by (simp add: scanned_blocks_def last_block_def)

subsection \<open>Skipped files, and what holds while block numbers stay in range\<close>

lemma getnext_skips_to_next:
  assumes "filelist ctx = skipped @ pfl # fl"
    and "list_all (stat_fails h) skipped"
    and "stat_size h (full_path h pfl) = Some sz"
  shows "ptrack_filelist_getnext h ctx log =
     (0, ctx \<lparr> filelist := fl, relpath := rel_path pfl,
               bid := block_id pfl (first_block h pfl),
               relsize := word_of_int (last_block h pfl sz) \<rparr>,
      log @ stat_warnings h skipped)"
  using assms(1,2)
proof (induction skipped arbitrary: ctx log)
  case Nil
  then show ?case
    using getnext_stat [of ctx pfl fl h sz log] assms(3) by (simp add: stat_warnings_def)
next
  case (Cons p ps)
  let ?c = "ctx \<lparr> filelist := ps @ pfl # fl, relpath := rel_path p, bid := block_id p 0 \<rparr>"
  let ?l = "log @ [WARNING (''ptrack: cannot stat file '' @ full_path h p)]"
  have e: "ptrack_filelist_getnext h ctx log = ptrack_filelist_getnext h ?c ?l"
    using Cons.prems by (intro getnext_nostat) (simp_all add: stat_fails_def)
  have "ptrack_filelist_getnext h ?c ?l =
     (0, ?c \<lparr> filelist := fl, relpath := rel_path pfl,
               bid := block_id pfl (first_block h pfl),
               relsize := word_of_int (last_block h pfl sz) \<rparr>,
      ?l @ stat_warnings h ps)"
    using Cons.prems by (intro Cons.IH) simp_all
  then show ?case
    unfolding e by (simp add: stat_warnings_def)
qed

lemma getnext_skips_all:
  assumes "filelist ctx = skipped" and "list_all (stat_fails h) skipped"
  shows "\<exists>ctx'. ptrack_filelist_getnext h ctx log = (- 1, ctx', log @ stat_warnings h skipped)
     \<and> filelist ctx' = [] \<and> lsn ctx' = lsn ctx"
  using assms
proof (induction skipped arbitrary: ctx log)
  case Nil
  then show ?case
    by (simp add: getnext_nil stat_warnings_def)
next
  case (Cons p ps)
  let ?c = "ctx \<lparr> filelist := ps, relpath := rel_path p, bid := block_id p 0 \<rparr>"
  let ?l = "log @ [WARNING (''ptrack: cannot stat file '' @ full_path h p)]"
  have e: "ptrack_filelist_getnext h ctx log = ptrack_filelist_getnext h ?c ?l"
    using Cons.prems by (intro getnext_nostat) (simp_all add: stat_fails_def)
  have "\<exists>ctx'. ptrack_filelist_getnext h ?c ?l = (- 1, ctx', ?l @ stat_warnings h ps)
     \<and> filelist ctx' = [] \<and> lsn ctx' = lsn ?c"
    using Cons.prems by (intro Cons.IH) simp_all
  then show ?case
    unfolding e by (simp add: stat_warnings_def)
qed

lemma call_after_skips:
  assumes "ptrack_map h = Some pmap"
    and "filelist ctx = skipped @ pfl # fl"
    and "list_all (stat_fails h) skipped"
    and "stat_size h (full_path h pfl) = Some sz"
    and "file_in_range h pfl"
    and "bitmap (scan_file h pmap (lsn ctx) pfl sz) = Some bits"
  shows "ptrack_get_pagemapset h arg_lsn (Some ctx) =
     Some (Inr (SRF_RETURN_NEXT (rel_path pfl) bits,
                ctx \<lparr> filelist := fl, relpath := rel_path pfl,
                      bid := block_id pfl (last_block h pfl sz + 1),
                      relsize := word_of_int (last_block h pfl sz) \<rparr>,
                stat_warnings h skipped))"
proof -
  let ?c1 = "ctx \<lparr> filelist := fl, relpath := rel_path pfl,
               bid := block_id pfl (first_block h pfl),
               relsize := word_of_int (last_block h pfl sz) \<rparr>"
  let ?c2 = "?c1 \<lparr> bid := block_id pfl (last_block h pfl sz + 1) \<rparr>"
  let ?l = "stat_warnings h skipped"
  have rng: "0 \<le> first_block h pfl" "first_block h pfl \<le> last_block h pfl sz"
    "last_block h pfl sz < 2 ^ 32 - 1"
    using assms(4,5) by (simp_all add: file_in_range_def)
  have g: "ptrack_filelist_getnext h ctx [] = (0, ?c1, ?l)"
    using getnext_skips_to_next [OF assms(2,3,4), of "[]"] by simp
  have e1: "ptrack_get_pagemapset h arg_lsn (Some ctx) =
      map_option Inr (pagemapset_loop h pmap ?c1 \<lparr> bitmap = None \<rparr> ?l)"
    using g by (simp add: pagemapset_advance [OF assms(1)] advance_def start_ctx_def)
  have e2: "pagemapset_loop h pmap ?c1 \<lparr> bitmap = None \<rparr> ?l =
      pagemapset_loop h pmap ?c2 (scan_file h pmap (lsn ctx) pfl sz) ?l"
    using loop_scan [OF rng, of ?c1 pfl h pmap "\<lparr> bitmap = None \<rparr>" ?l]
    by (simp add: scan_file_def)
  have "(word_of_int (last_block h pfl sz) :: 32 word) < word_of_int (last_block h pfl sz + 1)"
    using rng by (intro wi_less) simp_all
  then have gt: "relsize ?c2 < blocknum (bid ?c2)"
    by (simp add: block_id_def)
  show ?thesis
    using e1 e2 loop_finish_some [OF gt assms(6), of h pmap ?l] by simp
qed

lemma rows_in_range:
  assumes "ptrack_map h = Some pmap"
    and "list_all (file_in_range h) (enumerated_files h)"
  shows "\<exists>rows. ptrack_query h thr = Some (Inr rows)
     \<and> list_all2 (\<lambda>pfl row. fst row = rel_path pfl
                    \<and> file_bitmap h pmap thr pfl = Some (snd row)
                    \<and> (\<exists>i. bit_is_set (snd row) i))
         (filter (\<lambda>pfl. file_bitmap h pmap thr pfl \<noteq> None) (enumerated_files h)) rows"
proof -
  have q: "ptrack_query h thr = Some (Inr (expected_rows h pmap thr (enumerated_files h)))"
    using assms by (intro query_rows) (simp_all add: list_all_iff)
  have "list_all2 (\<lambda>pfl row. fst row = rel_path pfl
                    \<and> file_bitmap h pmap thr pfl = Some (snd row)
                    \<and> (\<exists>i. bit_is_set (snd row) i))
         (filter (\<lambda>pfl. file_bitmap h pmap thr pfl \<noteq> None) (enumerated_files h))
         (expected_rows h pmap thr (enumerated_files h))"
    by (rule list_all2_mono [OF expected_rows_char]) (auto dest: file_bitmap_has_bit)
  then show ?thesis using q by blast
qed

lemma zero_threshold_rows_in_range:
  assumes "ptrack_map h = Some pmap"
    and "list_all (file_in_range h) (enumerated_files h)"
    and "0 < RELSEG_SIZE h" and "RELSEG_SIZE h < 2 ^ 32"
  shows "\<exists>rows. ptrack_query h InvalidXLogRecPtr = Some (Inr rows)
          \<and> list_all2
               (\<lambda>pfl row. fst row = rel_path pfl
                  \<and> (\<exists>sz. stat_size h (full_path h pfl) = Some sz
                        \<and> list_all (\<lambda>k. bit_is_set (snd row) (nat (k mod RELSEG_SIZE h)))
                             (scanned_blocks h pfl sz)))
               (filter (\<lambda>pfl. stat_size h (full_path h pfl) \<noteq> None) (enumerated_files h))
               rows"
proof -
  let ?fl = "enumerated_files h"
  let ?thr = InvalidXLogRecPtr
  have rng: "\<forall>pfl\<in>set ?fl. file_in_range h pfl"
    using assms(2) by (simp add: list_all_iff)
  have q: "ptrack_query h ?thr = Some (Inr (expected_rows h pmap ?thr ?fl))"
    using assms(1) rng by (rule query_rows)
  have f: "filter (\<lambda>pfl. file_bitmap h pmap ?thr pfl \<noteq> None) ?fl =
      filter (\<lambda>pfl. stat_size h (full_path h pfl) \<noteq> None) ?fl"
  proof (rule filter_cong [OF refl])
    fix pfl
    assume "pfl \<in> set ?fl"
    then show "(file_bitmap h pmap ?thr pfl \<noteq> None) = (stat_size h (full_path h pfl) \<noteq> None)"
      using rng file_bitmap_zero [of h pfl pmap] by blast
  qed
  have "list_all2
      (\<lambda>pfl row. fst row = rel_path pfl
         \<and> (\<exists>sz. stat_size h (full_path h pfl) = Some sz
               \<and> list_all (\<lambda>k. bit_is_set (snd row) (nat (k mod RELSEG_SIZE h)))
                    (scanned_blocks h pfl sz)))
      (filter (\<lambda>pfl. file_bitmap h pmap ?thr pfl \<noteq> None) ?fl) (expected_rows h pmap ?thr ?fl)"
  proof (rule list.rel_mono_strong [OF expected_rows_char])
    fix pfl row
    assume "pfl \<in> set (filter (\<lambda>pfl. file_bitmap h pmap ?thr pfl \<noteq> None) ?fl)"
      and "fst row = rel_path pfl \<and> file_bitmap h pmap ?thr pfl = Some (snd row)"
    then show "fst row = rel_path pfl
         \<and> (\<exists>sz. stat_size h (full_path h pfl) = Some sz
               \<and> list_all (\<lambda>k. bit_is_set (snd row) (nat (k mod RELSEG_SIZE h)))
                    (scanned_blocks h pfl sz))"
      using rng zero_bits [of h pfl pmap "snd row"] assms(3,4) by auto
  qed
  then show ?thesis
    using q f by auto
qed

lemma ex_rows_250:
  "expected_rows ex_host ex_map 250 (enumerated_files ex_host) =
     [(''global/1262'', [False, True]),
      (''pg_tblspc/16400/PG_12_201909212/5/16500.1'', [False, True])]"
  by (simp add: ex_enumerated)
     (simp add: ex_host_def ex_stat_def ex_map_def ex_hash_def file_eval scan_eval
       fmt_int_def fmt_nat_eval digit_chars_def Let_def)

lemma ex_max_call_never_returns: "ptrack_get_pagemapset ex_host_max thr None = None"
proof -
  let ?c = "fst (first_call_init ex_host_max thr)"
  let ?l = "snd (first_call_init ex_host_max thr)"
  have st: "stat_size ex_host_max (full_path ex_host_max ex_last_segment) = Some (131071 * 8192)"
    by (simp add: ex_host_max_def ex_host_def ex_last_segment_def file_eval fmt_int_def
        fmt_nat_eval digit_chars_def)
  have fl: "filelist ?c = ex_last_segment # []"
    by (simp add: first_call_filelist ex_max_enumerated)
  have lb: "(word_of_int (last_block ex_host_max ex_last_segment (131071 * 8192)) :: 32 word) = - 1"
    by (simp add: ex_host_max_def ex_host_def ex_last_segment_def file_eval)
  have m: "ptrack_map ex_host_max = Some ex_map"
    by (simp add: ex_host_max_def ex_host_def)
  show ?thesis
    using getnext_stat [OF fl st, of ?l] lb
    by (simp add: pagemapset_advance [OF m] advance_def start_ctx_def loop_never_returns)
qed

lemma ex_first_call_log:
  "snd (first_call_init ex_host 150) =
     [LOG ''ptrack: could not stat file \"/pgdata/base/1/16386\"'']"
  by (simp add: first_call_init_def AllocateDir_def gather_entry.simps Let_def ex_eval)

section \<open>The claims\<close>

text \<open>
  C1 (the code at a failing input). For a file whose scanned blocks have distinct
  offsets the bit of a scanned block is set exactly when the block's slot is at or above
  the threshold (\<open>bit_iff_changed_when_offsets_distinct\<close>). The scan consults one block
  past the file's size (see C2), so for a full segment of 131072 blocks it consults
  block 131072 as well, whose offset is 0 again. Here the slot of block 0 holds LSN 0,
  the slot of block 131072 holds 200, the threshold is 150, and the row of the file has
  bit 0 set.
\<close>

theorem full_segment_sets_bit_of_other_block:
  "stat_size ex_host_full (full_path ex_host_full ex_rel_file) = Some (131072 * 8192)
   \<and> entries ex_map (BID_HASH_FUNC ex_host_full (block_id ex_rel_file 0)) = 0
   \<and> entries ex_map (BID_HASH_FUNC ex_host_full (block_id ex_rel_file 131072)) = 200
   \<and> (\<exists>bits ctx' log'.
        ptrack_get_pagemapset ex_host_full 150 (Some (ex_ctx [ex_rel_file])) =
          Some (Inr (SRF_RETURN_NEXT ''base/1/16384'' bits, ctx', log'))
        \<and> bit_is_set bits 0)"
proof -
  let ?h = ex_host_full
  let ?f = ex_rel_file
  let ?sz = "131072 * 8192 :: int"
  have st: "stat_size ?h (full_path ?h ?f) = Some ?sz"
    by (simp add: ex_host_full_def ex_host_def ex_rel_file_def file_eval)
  have e0: "entries ex_map (BID_HASH_FUNC ?h (block_id ?f 0)) = 0"
    by (simp add: ex_host_full_def ex_host_def ex_rel_file_def ex_map_def ex_hash_def block_id_def)
  have e1: "entries ex_map (BID_HASH_FUNC ?h (block_id ?f 131072)) = 200"
    by (simp add: ex_host_full_def ex_host_def ex_rel_file_def ex_map_def ex_hash_def block_id_def)
  have m: "ptrack_map ?h = Some ex_map"
    by (simp add: ex_host_full_def ex_host_def)
  have rng: "\<forall>pfl\<in>set (filelist (start_ctx ?h 150 (Some (ex_ctx [?f])))). file_in_range ?h pfl"
    by (simp add: start_ctx_def ex_ctx_def ex_host_full_def ex_host_def ex_rel_file_def file_eval)
  have blk: "131072 \<in> set (scanned_blocks ?h ?f ?sz)"
    by (simp add: scanned_blocks_def ex_host_full_def ex_host_def ex_rel_file_def file_eval)
  have ch: "changed ?h ex_map 150 ?f 131072"
    using e1 by (simp add: changed_def)
  have off: "unat (word_of_int 131072 mod word_of_int (RELSEG_SIZE ?h) :: 32 word) = 0"
    by (simp add: ex_host_full_def ex_host_def)
  have "list_ex (changed ?h ex_map 150 ?f) (scanned_blocks ?h ?f ?sz)"
    using blk ch by (auto simp: list_ex_iff)
  then obtain bits where bits: "bitmap (scan_file ?h ex_map 150 ?f ?sz) = Some bits"
    using scan_file_None [of ?h ex_map 150 ?f ?sz] by auto
  have set0: "bit_is_set bits 0"
    using scan_file_bits [OF bits, of 0] blk ch off by blast
  have rp: "rel_path ?f = ''base/1/16384''"
    by (simp add: rel_path_def ex_rel_file_def)
  obtain ctx' log' where
    "ptrack_get_pagemapset ?h 150 (Some (ex_ctx [?f])) =
       Some (Inr (fst (next_row ?h ex_map 150 [?f]), ctx', log'))"
    using call_spec [OF m rng] by (auto simp: start_ctx_def ex_ctx_def)
  then have "ptrack_get_pagemapset ?h 150 (Some (ex_ctx [?f])) =
       Some (Inr (SRF_RETURN_NEXT ''base/1/16384'' bits, ctx', log'))"
    using st bits rp by simp
  then show ?thesis using st e0 e1 set0 by blast
qed

text \<open>
  C2 (the code at a failing input). The scan of a file starts at the segment's first
  block and ends when \<^verbatim>\<open>blocknum > relsize\<close>, so it consults the block numbered
  \<^verbatim>\<open>relsize\<close> too: one block past the \<open>b\<close> blocks the file has (\<open>scanned_blocks_length\<close>).
  With a map in which only slot 2 is marked, the 3-block file \<^verbatim>\<open>base/1/16384\<close> is
  reported with bit 3 alone; at the example host the empty file \<^verbatim>\<open>base/1/16385\<close> is
  reported with bit 0.
\<close>

theorem block_past_end_is_consulted:
  "stat_size ex_host_slot2 ''/pgdata/base/1/16384'' = Some (3 * 8192)
   \<and> ptrack_query ex_host_slot2 100 =
       Some (Inr [(''global/1262'', [True]),
                  (''base/1/16384'', [False, False, False, True]),
                  (''pg_tblspc/16400/PG_12_201909212/5/16500.1'', [True])])
   \<and> stat_size ex_host ''/pgdata/base/1/16385'' = Some 0
   \<and> ptrack_query ex_host 100 =
       Some (Inr [(''global/1262'', [False, True]),
                  (''base/1/16384'', [False, True, True]),
                  (''base/1/16385'', [True]),
                  (''pg_tblspc/16400/PG_12_201909212/5/16500.1'', [False, True])])"
proof -
  let ?m = "\<lparr> init_lsn = 42, entries = (\<lambda>i. if i = 2 then 500 else (0 :: XLogRecPtr)) \<rparr>"
  have m: "ptrack_map ex_host_slot2 = Some ?m"
    by (simp add: ex_host_slot2_def)
  have rng: "\<forall>pfl\<in>set (enumerated_files ex_host_slot2). file_in_range ex_host_slot2 pfl"
    unfolding ex_slot2_enumerated
    by (simp add: ex_enumerated)
       (simp add: ex_host_slot2_def ex_host_def ex_stat_def file_eval fmt_int_def fmt_nat_eval
         digit_chars_def)
  have rows: "expected_rows ex_host_slot2 ?m 100 (enumerated_files ex_host_slot2) =
     [(''global/1262'', [True]),
      (''base/1/16384'', [False, False, False, True]),
      (''pg_tblspc/16400/PG_12_201909212/5/16500.1'', [True])]"
    unfolding ex_slot2_enumerated
    by (simp add: ex_enumerated)
       (simp add: ex_host_slot2_def ex_host_def ex_stat_def ex_hash_def file_eval scan_eval
         fmt_int_def fmt_nat_eval digit_chars_def Let_def replicate_numeral_eval
         list_update_numeral_eval)
  have q1: "ptrack_query ex_host_slot2 100 =
      Some (Inr (expected_rows ex_host_slot2 ?m 100 (enumerated_files ex_host_slot2)))"
    using m rng by (rule query_rows)
  have q2: "ptrack_query ex_host 100 =
      Some (Inr (expected_rows ex_host ex_map 100 (enumerated_files ex_host)))"
    using ex_in_range by (intro query_rows) (simp_all add: list_all_iff ex_host_def)
  show ?thesis
    using q1 rows q2 ex_rows_100
    by (simp add: ex_host_slot2_def ex_host_def ex_stat_def)
qed

text \<open>
  C3 (the code at a failing input). A call returns a row exactly for a file whose scan
  has set a bit (\<open>rows_in_range\<close>). The scan, however, also visits the block one past
  the file's end (see C2), so a file none of whose blocks changed gets a row when the
  slot of that block is at or above the threshold. At the example host the one-block
  file \<^verbatim>\<open>global/1262\<close> has LSN 0 in the slot of its block 0 and LSN 300 in the slot of
  block 1, which the file does not have; with threshold 250 the query returns a row for
  it, with bit 1 set.
\<close>

theorem file_without_changed_block_gets_a_row:
  "enumerated_files ex_host ! 0 = ex_global_file
   \<and> stat_size ex_host (full_path ex_host ex_global_file) = Some (1 * 8192)
   \<and> entries ex_map (BID_HASH_FUNC ex_host (block_id ex_global_file 0)) = 0
   \<and> entries ex_map (BID_HASH_FUNC ex_host (block_id ex_global_file 1)) = 300
   \<and> ptrack_query ex_host 250 =
       Some (Inr [(''global/1262'', [False, True]),
                  (''pg_tblspc/16400/PG_12_201909212/5/16500.1'', [False, True])])"
proof -
  have q: "ptrack_query ex_host 250 =
      Some (Inr (expected_rows ex_host ex_map 250 (enumerated_files ex_host)))"
    using ex_in_range by (intro query_rows) (simp_all add: list_all_iff ex_host_def)
  have st: "stat_size ex_host (full_path ex_host ex_global_file) = Some (1 * 8192)"
    by (simp add: ex_host_def ex_stat_def ex_global_file_def file_eval)
  have e0: "entries ex_map (BID_HASH_FUNC ex_host (block_id ex_global_file 0)) = 0"
    by (simp add: ex_host_def ex_global_file_def ex_map_def ex_hash_def block_id_def)
  have e1: "entries ex_map (BID_HASH_FUNC ex_host (block_id ex_global_file 1)) = 300"
    by (simp add: ex_host_def ex_global_file_def ex_map_def ex_hash_def block_id_def)
  have f: "enumerated_files ex_host ! 0 = ex_global_file"
    by (simp add: ex_enumerated ex_global_file_def)
  show ?thesis
    using q ex_rows_250 st e0 e1 f by simp
qed

text \<open>
  C4. When the feature is off (the shared map does not exist), every call of the
  changed-page-set query, the first one or a later one, fails with the error
  "ptrack is disabled" before anything is enumerated or looked up, and the complete
  query yields that error and no row.
\<close>

theorem pagemapset_disabled:
  "ptrack_map h = None \<Longrightarrow>
     ptrack_get_pagemapset h arg_lsn user_fctx = Some (Inl (ERROR ''ptrack is disabled''))
     \<and> ptrack_query h arg_lsn = Some (Inl (ERROR ''ptrack is disabled''))"
  by (simp add: ptrack_query_def fetch_all.simps [of h arg_lsn None] ptrack_get_pagemapset_def)

theorem pagemapset_disabled_witness:
  "ptrack_map (ex_host \<lparr> ptrack_map := None \<rparr>) = None
   \<and> ptrack_get_pagemapset (ex_host \<lparr> ptrack_map := None \<rparr>) 150 None =
       Some (Inl (ERROR ''ptrack is disabled''))
   \<and> ptrack_query (ex_host \<lparr> ptrack_map := None \<rparr>) 150 =
       Some (Inl (ERROR ''ptrack is disabled''))"
  using pagemapset_disabled [of "ex_host \<lparr> ptrack_map := None \<rparr>" 150 None]
  by simp

text \<open>
  C5. While the walk enumerates, an entry named \<^verbatim>\<open>.\<close> or \<^verbatim>\<open>..\<close>, an entry with a
  temporary relation's name and a regular file whose name does not parse as a relation
  file leave the list and the log as they are; an entry whose \<^verbatim>\<open>lstat\<close> fails adds one
  line to the log and nothing to the list; in every case the walk goes on with the next
  entry. While the scan takes files from the list, each file whose \<^verbatim>\<open>stat\<close> fails adds
  its warning to the log and is dropped, and the step returns 0 with the first file
  that can be stat()ed as the current one (its path, its first block, its size) and
  the files after it as the list, or -1 with the empty list when there is none. The
  call that starts at such a list returns the row of that next file together with the
  warnings, and the complete query yields what it yields without the skipped file.
  With the map present, no call and no complete query ends in an error.
\<close>

theorem enumeration_skips_and_continues:
  "(d_name = ''.'' \<or> d_name = ''..'' \<or> looks_like_temp_rel_name h d_name \<longrightarrow>
      gather_entry h d_name nd path spcOid dbOid st = st)
   \<and> (parse_filename_for_nontemp_relation h d_name = None \<longrightarrow>
      gather_entry h d_name Regular path spcOid dbOid st = st)
   \<and> (d_name \<noteq> ''.'' \<and> d_name \<noteq> ''..'' \<and> \<not> looks_like_temp_rel_name h d_name \<longrightarrow>
      gather_entry h d_name NoStat path spcOid dbOid st =
        (fst st, snd st @ [LOG (''ptrack: could not stat file \"'' @ path @ ''/'' @ d_name @ ''\"'')]))
   \<and> ptrack_gather_filelist h ((d_name, nd) # des) path spcOid dbOid st =
      ptrack_gather_filelist h des path spcOid dbOid (gather_entry h d_name nd path spcOid dbOid st)
   \<and> (filelist ctx = pfl # fl \<and> stat_size h (full_path h pfl) = None \<longrightarrow>
      ptrack_filelist_getnext h ctx log =
        ptrack_filelist_getnext h
          (ctx \<lparr> filelist := fl, relpath := rel_path pfl, bid := block_id pfl 0 \<rparr>)
          (log @ [WARNING (''ptrack: cannot stat file '' @ full_path h pfl)]))
   \<and> (filelist ctx = skipped @ nxt # rest \<and> list_all (stat_fails h) skipped
       \<and> stat_size h (full_path h nxt) = Some sz \<longrightarrow>
      ptrack_filelist_getnext h ctx log =
        (0,
         ctx \<lparr> filelist := rest, relpath := rel_path nxt,
               bid := block_id nxt (first_block h nxt),
               relsize := word_of_int (last_block h nxt sz) \<rparr>,
         log @ stat_warnings h skipped))
   \<and> (filelist ctx = skipped \<and> list_all (stat_fails h) skipped \<longrightarrow>
      (\<exists>ctx'. ptrack_filelist_getnext h ctx log = (- 1, ctx', log @ stat_warnings h skipped)
         \<and> filelist ctx' = [] \<and> lsn ctx' = lsn ctx))
   \<and> (ptrack_map h = Some pmap \<and> filelist ctx = skipped @ nxt # rest
       \<and> list_all (stat_fails h) skipped \<and> stat_size h (full_path h nxt) = Some sz
       \<and> file_in_range h nxt \<and> bitmap (scan_file h pmap (lsn ctx) nxt sz) = Some bits \<longrightarrow>
      ptrack_get_pagemapset h arg_lsn (Some ctx) =
        Some (Inr (SRF_RETURN_NEXT (rel_path nxt) bits,
                   ctx \<lparr> filelist := rest, relpath := rel_path nxt,
                         bid := block_id nxt (last_block h nxt sz + 1),
                         relsize := word_of_int (last_block h nxt sz) \<rparr>,
                   stat_warnings h skipped)))
   \<and> (ptrack_map h = Some pmap \<and> filelist ctx = pfl # fl
       \<and> stat_size h (full_path h pfl) = None \<and> (\<forall>p\<in>set fl. file_in_range h p) \<longrightarrow>
      fetch_all h arg_lsn (Some ctx) = fetch_all h arg_lsn (Some (ctx \<lparr> filelist := fl \<rparr>)))
   \<and> (ptrack_map h = Some pmap \<longrightarrow>
      ptrack_get_pagemapset h arg_lsn user_fctx \<noteq> Some (Inl e)
      \<and> fetch_all h arg_lsn user_fctx \<noteq> Some (Inl e))"
proof -
  have a: "filelist ctx = skipped @ nxt # rest \<and> list_all (stat_fails h) skipped
       \<and> stat_size h (full_path h nxt) = Some sz \<longrightarrow>
      ptrack_filelist_getnext h ctx log =
        (0,
         ctx \<lparr> filelist := rest, relpath := rel_path nxt,
               bid := block_id nxt (first_block h nxt),
               relsize := word_of_int (last_block h nxt sz) \<rparr>,
         log @ stat_warnings h skipped)"
    using getnext_skips_to_next [of ctx skipped nxt rest h sz log] by blast
  have b: "filelist ctx = skipped \<and> list_all (stat_fails h) skipped \<longrightarrow>
      (\<exists>ctx'. ptrack_filelist_getnext h ctx log = (- 1, ctx', log @ stat_warnings h skipped)
         \<and> filelist ctx' = [] \<and> lsn ctx' = lsn ctx)"
    using getnext_skips_all [of ctx skipped h log] by blast
  have c: "ptrack_map h = Some pmap \<and> filelist ctx = skipped @ nxt # rest
       \<and> list_all (stat_fails h) skipped \<and> stat_size h (full_path h nxt) = Some sz
       \<and> file_in_range h nxt \<and> bitmap (scan_file h pmap (lsn ctx) nxt sz) = Some bits \<longrightarrow>
      ptrack_get_pagemapset h arg_lsn (Some ctx) =
        Some (Inr (SRF_RETURN_NEXT (rel_path nxt) bits,
                   ctx \<lparr> filelist := rest, relpath := rel_path nxt,
                         bid := block_id nxt (last_block h nxt sz + 1),
                         relsize := word_of_int (last_block h nxt sz) \<rparr>,
                   stat_warnings h skipped))"
    using call_after_skips [of h pmap ctx skipped nxt rest sz bits arg_lsn] by blast
  have d: "ptrack_map h = Some pmap \<and> filelist ctx = pfl # fl
       \<and> stat_size h (full_path h pfl) = None \<and> (\<forall>p\<in>set fl. file_in_range h p) \<longrightarrow>
      fetch_all h arg_lsn (Some ctx) = fetch_all h arg_lsn (Some (ctx \<lparr> filelist := fl \<rparr>))"
    using fetch_all_skip_nostat [of h pmap ctx pfl fl arg_lsn] by blast
  have e: "ptrack_map h = Some pmap \<longrightarrow>
      ptrack_get_pagemapset h arg_lsn user_fctx \<noteq> Some (Inl e)
      \<and> fetch_all h arg_lsn user_fctx \<noteq> Some (Inl e)"
    using fetch_all_no_error [of h pmap arg_lsn user_fctx "Inl e"] pagemapset_no_error [of h pmap]
    by auto
  show ?thesis
    using a b c d e
    by (simp add: gather_skip_name gather_unparsed gather_nostat getnext_nostat)
qed

theorem enumeration_skips_and_continues_witness:
  "gather_entry ex_host ''t3_16390'' Regular ''/pgdata/base/1'' 0 1 ([], []) = ([], [])
   \<and> gather_entry ex_host ''PG_VERSION'' Regular ''/pgdata/base/1'' 0 1 ([], []) = ([], [])
   \<and> gather_entry ex_host ''16386'' NoStat ''/pgdata/base/1'' 0 1 ([], []) =
       ([], [LOG ''ptrack: could not stat file \"/pgdata/base/1/16386\"''])
   \<and> snd (first_call_init ex_host 150) =
       [LOG ''ptrack: could not stat file \"/pgdata/base/1/16386\"'']
   \<and> ptrack_filelist_getnext ex_host (ex_ctx [ex_fsm_file, ex_tblspc_file]) [] =
       (0,
        \<lparr> lsn = 150,
          bid = \<lparr> relnode = \<lparr> spcNode = 16400, dbNode = 5, relNode = 16500 \<rparr>,
                  forknum = MAIN_FORKNUM, blocknum = 131072 \<rparr>,
          relsize = 131074,
          relpath = ''pg_tblspc/16400/PG_12_201909212/5/16500.1'',
          filelist = [] \<rparr>,
        [WARNING ''ptrack: cannot stat file /pgdata/base/1/16385_fsm''])
   \<and> (\<exists>ctx'. ptrack_filelist_getnext ex_host (ex_ctx [ex_fsm_file]) [] =
         (- 1, ctx', [WARNING ''ptrack: cannot stat file /pgdata/base/1/16385_fsm''])
         \<and> filelist ctx' = [])
   \<and> ptrack_get_pagemapset ex_host 150 (Some (ex_ctx [ex_fsm_file, ex_tblspc_file])) =
       Some (Inr (SRF_RETURN_NEXT ''pg_tblspc/16400/PG_12_201909212/5/16500.1'' [False, True],
                  \<lparr> lsn = 150,
                    bid = \<lparr> relnode = \<lparr> spcNode = 16400, dbNode = 5, relNode = 16500 \<rparr>,
                            forknum = MAIN_FORKNUM, blocknum = 131075 \<rparr>,
                    relsize = 131074,
                    relpath = ''pg_tblspc/16400/PG_12_201909212/5/16500.1'',
                    filelist = [] \<rparr>,
                  [WARNING ''ptrack: cannot stat file /pgdata/base/1/16385_fsm'']))
   \<and> fetch_all ex_host 150 (Some (ex_ctx [ex_fsm_file, ex_tblspc_file])) =
       Some (Inr [(''pg_tblspc/16400/PG_12_201909212/5/16500.1'', [False, True])])
   \<and> fetch_all ex_host 150 None \<noteq> Some (Inl (ERROR ''ptrack is disabled''))"
proof -
  let ?c = "ex_ctx [ex_fsm_file, ex_tblspc_file]"
  let ?c1 = "ex_ctx [ex_fsm_file]"
  have tmp: "looks_like_temp_rel_name ex_host ''t3_16390''"
    by (simp add: ex_eval)
  have unp: "parse_filename_for_nontemp_relation ex_host ''PG_VERSION'' = None"
    by (simp add: ex_eval)
  have ntmp: "\<not> looks_like_temp_rel_name ex_host ''16386''"
    by (simp add: ex_eval)
  have fails: "list_all (stat_fails ex_host) [ex_fsm_file]"
    by (simp add: stat_fails_def ex_eval file_eval ex_fsm_file_def)
  have st: "stat_size ex_host (full_path ex_host ex_tblspc_file) = Some 16384"
    by (simp add: ex_eval file_eval ex_tblspc_file_def)
  have rng: "file_in_range ex_host ex_tblspc_file"
    by (simp add: ex_eval file_eval ex_tblspc_file_def)
  have bits: "bitmap (scan_file ex_host ex_map (lsn ?c) ex_tblspc_file 16384) = Some [False, True]"
    by (simp add: ex_ctx_def ex_host_def ex_map_def ex_hash_def ex_tblspc_file_def file_eval
        scan_eval Let_def)
  have m: "ptrack_map ex_host = Some ex_map"
    by (simp add: ex_host_def)
  have fl: "filelist ?c = [ex_fsm_file] @ ex_tblspc_file # []" "filelist ?c1 = [ex_fsm_file]"
    by (simp_all add: ex_ctx_def)
  have w: "stat_warnings ex_host [ex_fsm_file] =
      [WARNING ''ptrack: cannot stat file /pgdata/base/1/16385_fsm'']"
    by (simp add: stat_warnings_def ex_host_def file_eval ex_fsm_file_def)
  have vals: "rel_path ex_tblspc_file = ''pg_tblspc/16400/PG_12_201909212/5/16500.1''"
    "first_block ex_host ex_tblspc_file = 131072" "last_block ex_host ex_tblspc_file 16384 = 131074"
    by (simp_all add: ex_host_def file_eval ex_tblspc_file_def fmt_int_def fmt_nat_eval
        digit_chars_def)
  have rows: "fetch_all ex_host 150 (Some ?c) =
      Some (Inr [(''pg_tblspc/16400/PG_12_201909212/5/16500.1'', [False, True])])"
    using fails st rng bits vals
    by (simp add: fetch_all_Some [OF m] ex_ctx_def stat_fails_def file_in_range_def)
  have g1: "ptrack_filelist_getnext ex_host ?c [] =
       (0,
        ?c \<lparr> filelist := [], relpath := rel_path ex_tblspc_file,
             bid := block_id ex_tblspc_file (first_block ex_host ex_tblspc_file),
             relsize := word_of_int (last_block ex_host ex_tblspc_file 16384) \<rparr>,
        [] @ stat_warnings ex_host [ex_fsm_file])"
    using enumeration_skips_and_continues
      [where h = ex_host and ctx = ?c and skipped = "[ex_fsm_file]" and nxt = ex_tblspc_file
        and rest = "[]" and sz = 16384 and log = "[]"]
      fails st fl by blast
  have g2: "\<exists>ctx'. ptrack_filelist_getnext ex_host ?c1 [] =
         (- 1, ctx', [] @ stat_warnings ex_host [ex_fsm_file]) \<and> filelist ctx' = []"
    using enumeration_skips_and_continues
      [where h = ex_host and ctx = ?c1 and skipped = "[ex_fsm_file]" and log = "[]"]
      fails fl by blast
  have g3: "ptrack_get_pagemapset ex_host 150 (Some ?c) =
        Some (Inr (SRF_RETURN_NEXT (rel_path ex_tblspc_file) [False, True],
                   ?c \<lparr> filelist := [], relpath := rel_path ex_tblspc_file,
                        bid := block_id ex_tblspc_file (last_block ex_host ex_tblspc_file 16384 + 1),
                        relsize := word_of_int (last_block ex_host ex_tblspc_file 16384) \<rparr>,
                   stat_warnings ex_host [ex_fsm_file]))"
    using enumeration_skips_and_continues
      [where h = ex_host and ctx = ?c and skipped = "[ex_fsm_file]" and nxt = ex_tblspc_file
        and rest = "[]" and sz = 16384 and pmap = ex_map and bits = "[False, True]"
        and arg_lsn = 150]
      m fails st rng bits fl by blast
  have g4: "gather_entry ex_host ''t3_16390'' Regular ''/pgdata/base/1'' 0 1 ([], []) = ([], [])"
    using enumeration_skips_and_continues
      [where h = ex_host and d_name = "''t3_16390''" and nd = Regular
        and path = "''/pgdata/base/1''" and spcOid = 0 and dbOid = 1 and st = "([], [])"]
      tmp by blast
  have g5: "gather_entry ex_host ''PG_VERSION'' Regular ''/pgdata/base/1'' 0 1 ([], []) = ([], [])"
    using enumeration_skips_and_continues
      [where h = ex_host and d_name = "''PG_VERSION''"
        and path = "''/pgdata/base/1''" and spcOid = 0 and dbOid = 1 and st = "([], [])"]
      unp by blast
  have g6: "gather_entry ex_host ''16386'' NoStat ''/pgdata/base/1'' 0 1 ([], []) =
       ([], [LOG ''ptrack: could not stat file \"/pgdata/base/1/16386\"''])"
    using enumeration_skips_and_continues
      [where h = ex_host and d_name = "''16386''"
        and path = "''/pgdata/base/1''" and spcOid = 0 and dbOid = 1 and st = "([], [])"]
      ntmp by simp
  have g7: "fetch_all ex_host 150 None \<noteq> Some (Inl (ERROR ''ptrack is disabled''))"
    using enumeration_skips_and_continues
      [where h = ex_host and pmap = ex_map and arg_lsn = 150 and user_fctx = None
        and e = "ERROR ''ptrack is disabled''"]
      m by blast
  show ?thesis
    using g1 g2 g3 g4 g5 g6 g7 rows w vals ex_first_call_log
    by (simp add: ex_ctx_def block_id_def ex_tblspc_file_def)
qed

text \<open>
  C6 (the code at a failing input). The first call walks \<^verbatim>\<open>global\<close>, \<^verbatim>\<open>base\<close> and
  \<^verbatim>\<open>pg_tblspc\<close>, in this order, and every file it lists has a database OID or lies in
  the global tablespace (\<open>enumerated_in_db_or_global\<close>). The test for a numeric name,
  however, reads the name from its second character on (\<^verbatim>\<open>de->d_name + 1\<close>): the stray
  directory \<^verbatim>\<open>base/x1\<close> and the stray link \<^verbatim>\<open>pg_tblspc/x16400\<close> are descended, and the
  files below them are listed as relations of the databases 5 and 7 in the default
  tablespace.
\<close>

theorem non_numeric_names_are_descended:
  "enumerated_files ex_host_stray =
     [\<lparr> pfl_relnode = \<lparr> spcNode = 1663, dbNode = 5, relNode = 16384 \<rparr>,
        pfl_forknum = MAIN_FORKNUM, pfl_segno = 0, pfl_path = ''base/5/16384'' \<rparr>,
      \<lparr> pfl_relnode = \<lparr> spcNode = 1663, dbNode = 7, relNode = 16500 \<rparr>,
        pfl_forknum = MAIN_FORKNUM, pfl_segno = 0, pfl_path = ''base/7/16500'' \<rparr>]"
  by (simp add: enumerated_files_def first_call_init_def AllocateDir_def gather_entry.simps
      Let_def ex_host_stray_def ex_eval)

text \<open>
  C7. The init-LSN query returns the \<^verbatim>\<open>init_lsn\<close> read from the shared map when the map
  exists; when it does not, it returns the invalid LSN with a warning and raises no
  error.
\<close>

theorem init_lsn_query:
  "(ptrack_map h = Some pmap \<longrightarrow> ptrack_init_lsn h = Inr (init_lsn pmap, []))
   \<and> (ptrack_map h = None \<longrightarrow>
        ptrack_init_lsn h = Inr (InvalidXLogRecPtr, [WARNING ''ptrack is disabled'']))"
  by (simp add: ptrack_init_lsn_def)

theorem init_lsn_query_witness:
  "ptrack_init_lsn ex_host = Inr (42, [])
   \<and> ptrack_init_lsn (ex_host \<lparr> ptrack_map := None \<rparr>) =
       Inr (0, [WARNING ''ptrack is disabled''])"
  using init_lsn_query [of ex_host ex_map] init_lsn_query [of "ex_host \<lparr> ptrack_map := None \<rparr>"]
  by (simp add: ex_host_def ex_map_def InvalidXLogRecPtr_def)

text \<open>
  C8. The block-written and the block-extended hook call \<^verbatim>\<open>ptrack_mark_block\<close> with
  exactly the page identity they were given; the checkpoint hook calls
  \<^verbatim>\<open>ptrackCheckpoint\<close>; the directory-copied hook calls \<^verbatim>\<open>ptrack_walkdir\<close> on the path it
  was given, with the global tablespace and no database for a path that begins
  \<^verbatim>\<open>global/\<close>, with the default tablespace and the database OID written after \<^verbatim>\<open>base/\<close>,
  and with the tablespace OID written after \<^verbatim>\<open>pg_tblspc/\<close> and the database OID written
  after the version directory (OIDs of at most \<^verbatim>\<open>OIDCHARS\<close> digits). Each hook then calls
  the hook that was installed before it, with the same arguments, when there is one.
\<close>

theorem hooks_delegate:
  "ptrack_mdwrite_hook prev_w rnode forkno blkno =
     call_ptrack_mark_block rnode forkno blkno
     # (if prev_w then [call_prev_mdwrite_hook rnode forkno blkno] else [])
   \<and> ptrack_mdextend_hook prev_e rnode forkno blkno =
     call_ptrack_mark_block rnode forkno blkno
     # (if prev_e then [call_prev_mdextend_hook rnode forkno blkno] else [])
   \<and> ptrack_ProcessSyncRequests_hook prev_s =
     call_ptrackCheckpoint # (if prev_s then [call_prev_ProcessSyncRequests_hook] else [])
   \<and> (starts_with path ''global/'' \<longrightarrow>
        ptrack_copydir_hook h prev_c path =
          Inr (call_ptrack_walkdir path GLOBALTABLESPACE_OID InvalidOid
               # (if prev_c then [call_prev_copydir_hook path] else [])))
   \<and> (starts_with path ''base/'' \<and> strspn (drop 5 path) digit_chars \<le> OIDCHARS \<longrightarrow>
        ptrack_copydir_hook h prev_c path =
          Inr (call_ptrack_walkdir path DEFAULTTABLESPACE_OID (oid_at (drop 5 path))
               # (if prev_c then [call_prev_copydir_hook path] else [])))
   \<and> (starts_with path ''pg_tblspc/'' \<and> strspn (drop 10 path) digit_chars \<le> OIDCHARS
        \<and> strstr path (TABLESPACE_VERSION_DIRECTORY h) = Some found
        \<and> strlen (TABLESPACE_VERSION_DIRECTORY h) < length found
        \<and> strspn (drop (strlen (TABLESPACE_VERSION_DIRECTORY h) + 1) found) digit_chars
            \<le> OIDCHARS \<longrightarrow>
        ptrack_copydir_hook h prev_c path =
          Inr (call_ptrack_walkdir path (oid_at (drop 10 path))
                 (oid_at (drop (strlen (TABLESPACE_VERSION_DIRECTORY h) + 1) found))
               # (if prev_c then [call_prev_copydir_hook path] else [])))"
  by (simp add: ptrack_mdwrite_hook_def ptrack_mdextend_hook_def
      ptrack_ProcessSyncRequests_hook_def copydir_global copydir_base copydir_tblspc)

theorem hooks_delegate_witness:
  "ptrack_copydir_hook ex_host True ''global/'' =
     Inr [call_ptrack_walkdir ''global/'' 1664 0, call_prev_copydir_hook ''global/'']
   \<and> ptrack_copydir_hook ex_host True ''base/16384'' =
     Inr [call_ptrack_walkdir ''base/16384'' 1663 16384, call_prev_copydir_hook ''base/16384'']
   \<and> ptrack_copydir_hook ex_host False ''pg_tblspc/16400/PG_12_201909212/5'' =
     Inr [call_ptrack_walkdir ''pg_tblspc/16400/PG_12_201909212/5'' 16400 5]
   \<and> ptrack_mdwrite_hook True \<lparr> node = \<lparr> spcNode = 1663, dbNode = 1, relNode = 16384 \<rparr>,
                                   backend = - 1 \<rparr> MAIN_FORKNUM 7 =
     [call_ptrack_mark_block \<lparr> node = \<lparr> spcNode = 1663, dbNode = 1, relNode = 16384 \<rparr>,
                               backend = - 1 \<rparr> MAIN_FORKNUM 7,
      call_prev_mdwrite_hook \<lparr> node = \<lparr> spcNode = 1663, dbNode = 1, relNode = 16384 \<rparr>,
                               backend = - 1 \<rparr> MAIN_FORKNUM 7]
   \<and> ptrack_mdextend_hook False \<lparr> node = \<lparr> spcNode = 1663, dbNode = 1, relNode = 16384 \<rparr>,
                                   backend = - 1 \<rparr> MAIN_FORKNUM 8 =
     [call_ptrack_mark_block \<lparr> node = \<lparr> spcNode = 1663, dbNode = 1, relNode = 16384 \<rparr>,
                               backend = - 1 \<rparr> MAIN_FORKNUM 8]
   \<and> ptrack_ProcessSyncRequests_hook True =
     [call_ptrackCheckpoint, call_prev_ProcessSyncRequests_hook]"
  using hooks_delegate [of True "\<lparr> node = \<lparr> spcNode = 1663, dbNode = 1, relNode = 16384 \<rparr>,
        backend = - 1 \<rparr>" MAIN_FORKNUM 7 False True "''x''" ex_host True "[]"]
    hooks_delegate [of True "\<lparr> node = \<lparr> spcNode = 1663, dbNode = 1, relNode = 16384 \<rparr>,
        backend = - 1 \<rparr>" MAIN_FORKNUM 8 False True "''x''" ex_host True "[]"]
    hooks_delegate [of True undefined undefined undefined True True "''global/''" ex_host True "[]"]
    hooks_delegate [of True undefined undefined undefined True True "''base/16384''" ex_host True "[]"]
    hooks_delegate [of True undefined undefined undefined True True
      "''pg_tblspc/16400/PG_12_201909212/5''" ex_host False "''PG_12_201909212/5''"]
  by (simp add: ex_eval oid_at_def)

text \<open>
  C9 (the code at a failing input). With the invalid LSN as the threshold the test
  succeeds for every block, and while block numbers stay below \<open>2^32 - 1\<close> every file
  that can be stat()ed is reported with the bit of every scanned block set
  (\<open>zero_threshold_rows_in_range\<close>). For the last segment of a relation of \<open>2^32 - 1\<close>
  blocks the scan never ends (see C10): the file is enumerated and holds 131071
  blocks, and neither the call nor the complete query returns, so the file is never
  reported.
\<close>

theorem zero_threshold_maximal_relation_not_reported:
  "enumerated_files ex_host_max = [ex_last_segment]
   \<and> stat_size ex_host_max (full_path ex_host_max ex_last_segment) = Some (131071 * 8192)
   \<and> ptrack_get_pagemapset ex_host_max InvalidXLogRecPtr None = None
   \<and> ptrack_query ex_host_max InvalidXLogRecPtr = None"
proof -
  have st: "stat_size ex_host_max (full_path ex_host_max ex_last_segment) = Some (131071 * 8192)"
    by (simp add: ex_host_max_def ex_host_def ex_last_segment_def file_eval fmt_int_def
        fmt_nat_eval digit_chars_def)
  have "ptrack_query ex_host_max InvalidXLogRecPtr = None"
    by (simp add: ptrack_query_def fetch_all.simps [of ex_host_max InvalidXLogRecPtr None]
        ex_max_call_never_returns)
  then show ?thesis
    using st ex_max_enumerated ex_max_call_never_returns by simp
qed

text \<open>
  C10 (the code at a failing input). A call of the get-next-file step shortens the list
  or reports its end (\<open>getnext_shrinks\<close>), and with files whose block numbers stay
  below \<open>2^32 - 1\<close> the complete query returns at most one row per file
  (\<open>query_rows\<close>, \<open>expected_rows_length\<close>). The scan of one file, however, ends when
  \<^verbatim>\<open>blocknum > relsize\<close>, and for the last segment of a relation of \<open>2^32 - 1\<close> blocks
  (segment 32767 with 131071 blocks) \<^verbatim>\<open>relsize\<close> is \<open>2^32 - 1\<close>: no 32-bit block number
  is greater, the call never returns, and neither does the complete query.
\<close>

theorem maximal_relation_never_returns:
  "enumerated_files ex_host_max = [ex_last_segment]
   \<and> stat_size ex_host_max (full_path ex_host_max ex_last_segment) = Some (131071 * 8192)
   \<and> ptrack_get_pagemapset ex_host_max 100 None = None
   \<and> ptrack_query ex_host_max 100 = None"
proof -
  let ?c = "fst (first_call_init ex_host_max 100)"
  let ?l = "snd (first_call_init ex_host_max 100)"
  have st: "stat_size ex_host_max (full_path ex_host_max ex_last_segment) = Some (131071 * 8192)"
    by (simp add: ex_host_max_def ex_host_def ex_last_segment_def file_eval fmt_int_def
        fmt_nat_eval digit_chars_def)
  have fl: "filelist ?c = ex_last_segment # []"
    by (simp add: first_call_filelist ex_max_enumerated)
  have lb: "(word_of_int (last_block ex_host_max ex_last_segment (131071 * 8192)) :: 32 word) = - 1"
    by (simp add: ex_host_max_def ex_host_def ex_last_segment_def file_eval)
  have m: "ptrack_map ex_host_max = Some ex_map"
    by (simp add: ex_host_max_def ex_host_def)
  have call: "ptrack_get_pagemapset ex_host_max 100 None = None"
    using getnext_stat [OF fl st, of ?l] lb
    by (simp add: pagemapset_advance [OF m] advance_def start_ctx_def loop_never_returns)
  then have "ptrack_query ex_host_max 100 = None"
    by (simp add: ptrack_query_def fetch_all.simps [of ex_host_max 100 None])
  then show ?thesis using st call ex_max_enumerated by simp
qed

end
